theory Spec2Isabelle
  imports Main "HOL-Library.AList" "HOL-Library.Code_Target_Nat"
begin

text \<open>
  A shallow embedding of the collaborative timer's core: the timer state machine
  (\<open>timer-core.js\<close>), the message formatters of the server and the session manager that
  dispatches inbound messages, fans out broadcasts and tracks offline users. Each source
  function is a definition of the same name; the properties follow the definitions.
\<close>

section \<open>Shared constants (src/shared/constants.js)\<close>

text \<open>
  JavaScript numbers that hold millisecond timestamps, durations and remaining times are
  modelled as \<open>int\<close>; interval indices (\<open>interval\<close>, \<open>startedInterval\<close>), which the data
  model types as non-negative integers, are modelled as \<open>nat\<close>. \<open>Date.now()\<close> is the
  explicit argument \<open>now\<close> of every operation that reads the clock.
\<close>

definition MAX_DURATION :: int where "MAX_DURATION = 86400"
definition MIN_DURATION :: int where "MIN_DURATION = 1"
definition DEFAULT_DURATION :: int where "DEFAULT_DURATION = 1500"
definition MAX_STRING_LENGTH :: nat where "MAX_STRING_LENGTH = 1000"
definition MAX_NAME_LENGTH :: nat where "MAX_NAME_LENGTH = 50"
definition MAX_URL_LENGTH :: nat where "MAX_URL_LENGTH = 500"
definition MAX_SAFE_INTEGER :: nat where "MAX_SAFE_INTEGER = 9007199254740991"

section \<open>Data model (src/types/messages.d.ts)\<close>

record interval_item =
  iname :: string
  duration :: int
  alert :: string
  customCSS :: string

record timer_state =
  repeat :: bool
  interval :: nat
  remaining :: int
  isRunning :: bool
  isPaused :: bool

record timer_internal = timer_state +
  startedInterval :: nat
  startedAt :: int
  pausedAt :: int
  timePaused :: int

section \<open>Timer core (src/shared/timer-core.js)\<close>

text \<open>
  A \<open>TimerCore\<close> object holds the bound interval list and the internal timer state. Every
  method mutates \<open>this.state\<close> (and \<open>updateIntervals\<close> also \<open>this.intervals\<close>) and returns a
  copy of the state; the model returns the updated object, whose \<open>state\<close> is that copy.
\<close>

record timer_core =
  intervals :: "interval_item list"
  state :: timer_internal

text \<open>\<open>(intervals[i]?.duration ?? DEFAULT_DURATION) * 1000\<close>\<close>

definition durationMs :: "interval_item list \<Rightarrow> nat \<Rightarrow> int" where
  "durationMs items i =
     (if i < length items then duration (items ! i) else DEFAULT_DURATION) * 1000"

definition newTimerCore :: "interval_item list \<Rightarrow> timer_core" where
  "newTimerCore items =
     \<lparr>intervals = items,
      state = \<lparr>repeat = False, interval = 0, remaining = durationMs items 0,
               isRunning = False, isPaused = False,
               startedInterval = 0, startedAt = 0, pausedAt = 0, timePaused = 0\<rparr>\<rparr>"

definition resume :: "int \<Rightarrow> timer_core \<Rightarrow> timer_core" where
  "resume now tc =
     (let timer = state tc in
      if isPaused timer
      then tc\<lparr>state := timer\<lparr>isPaused := False,
                                timePaused := timePaused timer + (now - pausedAt timer),
                                pausedAt := 0\<rparr>\<rparr>
      else tc)"

definition start :: "int \<Rightarrow> timer_core \<Rightarrow> timer_core" where
  "start now tc =
     (let timer = state tc;
          timer1 = (if isPaused timer then state (resume now tc)
                    else if \<not> isRunning timer
                    then timer\<lparr>startedInterval := interval timer, startedAt := now,
                               timePaused := 0\<rparr>
                    else timer)
      in tc\<lparr>state := timer1\<lparr>isRunning := True, isPaused := False, pausedAt := 0\<rparr>\<rparr>)"

definition pause :: "int \<Rightarrow> timer_core \<Rightarrow> timer_core" where
  "pause now tc = tc\<lparr>state := (state tc)\<lparr>isPaused := True, pausedAt := now\<rparr>\<rparr>"

definition stop :: "timer_core \<Rightarrow> timer_core" where
  "stop tc =
     tc\<lparr>state := (state tc)\<lparr>isRunning := False, isPaused := False, interval := 0,
                            remaining := durationMs (intervals tc) 0,
                            startedInterval := 0, startedAt := 0, pausedAt := 0,
                            timePaused := 0\<rparr>\<rparr>"

text \<open>\<open>repeat(repeat = null)\<close>: \<open>Boolean(repeat ?? !timer.repeat)\<close>; the argument is optional.\<close>

definition repeat_op :: "bool option \<Rightarrow> timer_core \<Rightarrow> timer_core" where
  "repeat_op arg tc =
     tc\<lparr>state := (state tc)\<lparr>repeat := (case arg of None \<Rightarrow> \<not> repeat (state tc)
                                                  | Some b \<Rightarrow> b)\<rparr>\<rparr>"

definition next_op :: "int \<Rightarrow> timer_core \<Rightarrow> timer_core" where
  "next_op now tc =
     (let timer = state tc;
          i = (if interval timer + 1 \<ge> length (intervals tc) then 0 else interval timer + 1);
          timer1 = timer\<lparr>interval := i, remaining := durationMs (intervals tc) i\<rparr>
      in if isRunning timer1
         then tc\<lparr>state := timer1\<lparr>startedInterval := i, startedAt := now,
                                  pausedAt := (if isPaused timer1 then now else 0),
                                  timePaused := 0\<rparr>\<rparr>
         else tc\<lparr>state := timer1\<rparr>)"

text \<open>
  The \<open>while (remaining > 0)\<close> loop of \<open>sync()\<close>. It leaves either by \<open>break\<close> or by its
  condition, with the interval reached and the time elapsed inside it (\<open>Settled\<close>), or by the
  early return that stops the timer (\<open>Expired\<close>). With \<open>repeat\<close> set and durations that are
  not positive the loop of the source never ends, so the model is a partial function and
  \<open>None\<close> stands for a call that does not return.
\<close>

datatype loop_exit = Settled nat int | Expired

partial_function (option) sync_loop ::
  "interval_item list \<Rightarrow> bool \<Rightarrow> nat \<Rightarrow> int \<Rightarrow> loop_exit option" where
  "sync_loop items rep current rem =
     (if rem > 0 then
        (let dur = duration (items ! current) * 1000 in
         if rem < dur then Some (Settled current rem)
         else
           (let rem1 = rem - dur;
                current1 = current + 1;
                current2 = (if current1 \<ge> length items \<and> rep then 0 else current1)
            in if current2 \<ge> length items \<and> \<not> rep then Some Expired
               else sync_loop items rep current2 rem1))
      else Some (Settled current rem))"

declare sync_loop.simps [code]

text \<open>
  The elapsed time \<open>sync()\<close> computes: the in-flight pause span (\<open>offset\<close>) and the pause
  time already folded into \<open>timePaused\<close> are subtracted from the time since \<open>startedAt\<close>.
\<close>

definition elapsedAt :: "int \<Rightarrow> timer_internal \<Rightarrow> int" where
  "elapsedAt now timer =
     (let offset = (if isPaused timer \<and> pausedAt timer > 0 then now - pausedAt timer else 0)
      in now - startedAt timer - timePaused timer - offset)"

text \<open>\<open>let current = timer.startedInterval; if (current >= intervals.length) current = 0;\<close>\<close>

definition startIndex :: "interval_item list \<Rightarrow> timer_internal \<Rightarrow> nat" where
  "startIndex items timer =
     (if startedInterval timer \<ge> length items then 0 else startedInterval timer)"

definition sync :: "int \<Rightarrow> timer_core \<Rightarrow> timer_core option" where
  "sync now tc =
     (let timer = state tc; items = intervals tc in
      if \<not> isRunning timer \<or> startedAt timer = 0 then Some tc
      else if length items = 0 then Some tc
      else
        (case sync_loop items (repeat timer) (startIndex items timer) (elapsedAt now timer) of
           None \<Rightarrow> None
         | Some Expired \<Rightarrow>
             Some (tc\<lparr>state := timer\<lparr>isRunning := False, isPaused := False, interval := 0,
                                      remaining := duration (items ! 0) * 1000,
                                      startedAt := 0, startedInterval := 0, pausedAt := 0,
                                      timePaused := 0\<rparr>\<rparr>)
         | Some (Settled cur rem) \<Rightarrow>
             Some (tc\<lparr>state := timer\<lparr>interval := cur,
                                      remaining := duration (items ! cur) * 1000 - rem\<rparr>\<rparr>)))"

definition updateIntervals :: "int \<Rightarrow> interval_item list \<Rightarrow> timer_core \<Rightarrow> timer_core" where
  "updateIntervals now items tc =
     (let timer = state tc in
      if interval timer \<ge> length items
      then \<lparr>intervals = items,
            state = timer\<lparr>remaining := durationMs items 0, interval := 0, startedInterval := 0,
                          startedAt := (if startedAt timer \<noteq> 0 then now else 0),
                          pausedAt := (if pausedAt timer \<noteq> 0 then now else 0),
                          timePaused := 0\<rparr>\<rparr>
      else
        (let dur = durationMs items (interval timer) in
         if isRunning timer
         then
           (let elapsed = now - startedAt timer - timePaused timer;
                timer1 = timer\<lparr>startedAt := now - elapsed, startedInterval := interval timer,
                               timePaused := 0,
                               pausedAt := (if isPaused timer then now else 0)\<rparr>
            in \<lparr>intervals = items,
                state = (if remaining timer1 > dur
                         then timer1\<lparr>remaining := dur, startedAt := now\<rparr>
                         else timer1)\<rparr>)
         else \<lparr>intervals = items, state = timer\<lparr>remaining := dur\<rparr>\<rparr>))"

definition updateState :: "int \<Rightarrow> timer_state \<Rightarrow> timer_core \<Rightarrow> timer_core" where
  "updateState now ext tc =
     (let timer = (state tc)\<lparr>repeat := repeat ext, interval := interval ext,
                              remaining := remaining ext, isRunning := isRunning ext,
                              isPaused := isPaused ext\<rparr>;
          dur = durationMs (intervals tc) (interval timer);
          elapsed = dur - remaining timer
      in tc\<lparr>state := timer\<lparr>startedInterval := interval timer,
                             startedAt := (if isRunning timer then now - elapsed else 0),
                             pausedAt := (if isPaused timer then now else 0),
                             timePaused := 0\<rparr>\<rparr>)"

section \<open>Message codec (the formatters of the server's messages module)\<close>

subsection \<open>Strings\<close>

text \<open>
  A JavaScript string is modelled as the list of its code units, for code units below 256.
  \<open>String.prototype.trim\<close> removes white space and line terminators at both ends; in that
  range these are tab, line feed, vertical tab, form feed, carriage return, space and the
  no-break space. \<open>substring(0, n)\<close> is \<open>take n\<close>.
\<close>

definition isWhitespace :: "char \<Rightarrow> bool" where
  "isWhitespace c = ((of_char c :: nat) \<in> {9, 10, 11, 12, 13, 32, 160})"

definition trim :: "string \<Rightarrow> string" where
  "trim s = rev (dropWhile isWhitespace (rev (dropWhile isWhitespace s)))"

text \<open>
  \<open>toLowerCase\<close> on the letters A to Z. Every other code unit is kept: the only caller
  tests the result against \<open>[a-f0-9-]\<close>, and no other code unit lowers into that class.
\<close>

definition toLowerCase :: "string \<Rightarrow> string" where
  "toLowerCase s =
     map (\<lambda>c. if 65 \<le> (of_char c :: nat) \<and> (of_char c :: nat) \<le> 90
              then char_of ((of_char c :: nat) + 32) else c) s"

text \<open>\<open>SESSION_ID_REGEX = /^[a-z0-9-]{3,64}$/\<close> and \<open>CLIENT_ID_REGEX = /^[a-f0-9-]{36}$/\<close>\<close>

definition isSessionIdChar :: "char \<Rightarrow> bool" where
  "isSessionIdChar c =
     (let n = (of_char c :: nat)
      in (97 \<le> n \<and> n \<le> 122) \<or> (48 \<le> n \<and> n \<le> 57) \<or> n = 45)"

definition isClientIdChar :: "char \<Rightarrow> bool" where
  "isClientIdChar c =
     (let n = (of_char c :: nat)
      in (97 \<le> n \<and> n \<le> 102) \<or> (48 \<le> n \<and> n \<le> 57) \<or> n = 45)"

definition SESSION_ID_REGEX :: "string \<Rightarrow> bool" where
  "SESSION_ID_REGEX s = (3 \<le> length s \<and> length s \<le> 64 \<and> list_all isSessionIdChar s)"

definition CLIENT_ID_REGEX :: "string \<Rightarrow> bool" where
  "CLIENT_ID_REGEX s = (length s = 36 \<and> list_all isClientIdChar s)"

subsection \<open>Wire data\<close>

text \<open>
  \<open>UserInternal\<close> extends \<open>User\<close> with \<open>lastPing\<close>, \<open>offlineAt\<close> and the connection \<open>ws\<close>
  (types/messages.d.ts). The session manager also reads and writes a property \<open>sockets\<close> on
  user objects, a map from socket id to connection that the type does not declare. A
  JavaScript object has such a property or not, so the field is an option: \<open>None\<close> is an
  object without the property, on which \<open>user.sockets\<close> is \<open>undefined\<close> and any call on it
  throws a \<open>TypeError\<close>. A connection is named by a handle into the table of connections
  kept in the broker state; \<open>ws\<close> is \<open>None\<close> for \<open>null\<close>. A missing or \<open>null\<close> \<open>offlineAt\<close> and
  the value 0 are all falsy in the source and are the value 0 here; the same holds for
  \<open>lastPing\<close> and \<open>emptyAt\<close>.
\<close>

record user =
  clientId :: string
  uname :: string
  avatarUrl :: string
  isOnline :: bool

record user_internal = user +
  lastPing :: int
  offlineAt :: int
  ws :: "nat option"
  sockets :: "(string \<times> nat) list option"

text \<open>
  A user object as the formatters get it: \<open>Internal\<close> is an object with an \<open>offlineAt\<close> key
  (the test \<open>'offlineAt' in user\<close>), \<open>Plain\<close> one without. The user object of an inbound
  message is parsed JSON and can be either. \<open>plainOf\<close> reads the four fields of \<open>User\<close>.
\<close>

datatype any_user = Plain user | Internal user_internal

definition plainOf :: "any_user \<Rightarrow> user" where
  "plainOf u = (case u of Plain p \<Rightarrow> p | Internal i \<Rightarrow> user.truncate i)"

text \<open>
  The \<open>items\<close> of an inbound interval list is whatever the JSON carried: an array of
  intervals or something else.
\<close>

datatype items_field = NotArray | Array "interval_item list"

record interval_list =
  lastUpdated :: int
  items :: items_field

text \<open>\<open>intervals?.items || []\<close>, where the source goes on to use the value as an array.\<close>

definition itemsOf :: "interval_list \<Rightarrow> interval_item list" where
  "itemsOf il = (case items il of Array xs \<Rightarrow> xs | NotArray \<Rightarrow> [])"

record session_update =
  uName :: string
  uDescription :: string
  uIntervals :: interval_list

record session =
  xSessionId :: string
  xName :: string
  xDescription :: string
  xIntervals :: interval_list
  xTimer :: timer_state
  xUsers :: "(string \<times> user) list"

record session_internal =
  sessionId :: string
  sname :: string
  description :: string
  intervalList :: interval_list
  timer :: timer_internal
  timerCore :: timer_core
  users :: "(string \<times> user_internal) list"
  createdAt :: int
  lastActivity :: int
  emptyAt :: int

text \<open>
  Inbound messages by their \<open>type\<close>; \<open>Unknown t\<close> is a message whose type \<open>t\<close> is none of
  the six. The \<open>timer\<close> of a \<open>session_update\<close> is optional. The fields have the JSON types
  the message types declare (strings, integers, booleans); a user object may carry the
  keys of \<open>UserInternal\<close> besides those of \<open>User\<close>.
\<close>

datatype incoming =
    SessionJoin string session_update timer_state any_user
  | SessionUpdate session_update "timer_state option"
  | TimerUpdate timer_state
  | UserUpdate any_user
  | UserList
  | Ping
  | Unknown string

datatype outgoing =
    SessionCreated string string
  | SessionJoined string string session
  | UserConnected string user
  | UserDisconnected string user
  | UserUpdated string user
  | UsersConnected string "(string \<times> user) list"
  | SessionUpdated string session_update
  | TimerUpdated string timer_state
  | Pong
  | ErrorMsg string

datatype codec_error = InvalidMessageType

subsection \<open>Base formatters\<close>

definition formatSessionId :: "string \<Rightarrow> string" where
  "formatSessionId input = (let sid = trim input in if SESSION_ID_REGEX sid then sid else [])"

text \<open>
  \<open>generateUUID()\<close> replaces every \<open>x\<close> of the template
  \<open>xxxxxxxx-xxxx-4xxx-yxxx-xxxxxxxxxxxx\<close> by a random hexadecimal digit and the \<open>y\<close> by one
  of 8, 9, a, b. The digits are random, so its result is an argument (\<open>uuid\<close>) of the
  functions that call it, and \<open>isGeneratedUUID\<close> says which strings it can return.
\<close>

definition isHexDigit :: "char \<Rightarrow> bool" where
  "isHexDigit c =
     (let n = (of_char c :: nat) in (48 \<le> n \<and> n \<le> 57) \<or> (97 \<le> n \<and> n \<le> 102))"

definition isGeneratedUUID :: "string \<Rightarrow> bool" where
  "isGeneratedUUID s =
     (length s = 36 \<and>
      list_all (\<lambda>i. if i = 8 \<or> i = 13 \<or> i = 18 \<or> i = 23 then s ! i = CHR ''-''
                     else if i = 14 then s ! i = CHR ''4''
                     else if i = 19 then s ! i \<in> set ''89ab''
                     else isHexDigit (s ! i)) [0..<36])"

definition formatClientId :: "string \<Rightarrow> string \<Rightarrow> string" where
  "formatClientId uuid input =
     (let cid = trim (toLowerCase input) in if CLIENT_ID_REGEX cid then cid else uuid)"

definition formatUser :: "any_user \<Rightarrow> user" where
  "formatUser u =
     (case u of
        Plain p \<Rightarrow>
          \<lparr>clientId = clientId p,
           uname = take MAX_NAME_LENGTH (trim (uname p)),
           avatarUrl = take MAX_URL_LENGTH (trim (avatarUrl p)),
           isOnline = True\<rparr>
      | Internal i \<Rightarrow>
          \<lparr>clientId = clientId i,
           uname = take MAX_NAME_LENGTH (trim (uname i)),
           avatarUrl = take MAX_URL_LENGTH (trim (avatarUrl i)),
           isOnline = (offlineAt i = 0)\<rparr>)"

text \<open>
  \<open>formatUserList\<close> keys the result by each user's own \<open>clientId\<close> field and skips users
  whose \<open>clientId\<close> is empty; a later user with the same field replaces an earlier one.
\<close>

definition formatUserList :: "(string \<times> user_internal) list \<Rightarrow> (string \<times> user) list" where
  "formatUserList us =
     fold (\<lambda>(k, u) acc. if clientId u \<noteq> [] then AList.update (clientId u) (formatUser (Internal u)) acc
                         else acc) us []"

definition formatInterval :: "interval_item \<Rightarrow> interval_item" where
  "formatInterval i =
     \<lparr>iname = take MAX_NAME_LENGTH (trim (iname i)),
      duration = max MIN_DURATION
                   (min MAX_DURATION (if duration i = 0 then DEFAULT_DURATION else duration i)),
      alert = (let a = take MAX_NAME_LENGTH (trim (alert i)) in if a = [] then ''Default'' else a),
      customCSS = trim (customCSS i)\<rparr>"

definition formatIntervalList :: "interval_list \<Rightarrow> interval_list" where
  "formatIntervalList il =
     \<lparr>lastUpdated = lastUpdated il,
      items = (case items il of Array xs \<Rightarrow> Array (map formatInterval xs)
                              | NotArray \<Rightarrow> Array [])\<rparr>"

definition formatTimer :: "'a timer_state_scheme \<Rightarrow> timer_state" where
  "formatTimer t =
     \<lparr>repeat = repeat t,
      interval = max 0 (min (interval t) MAX_SAFE_INTEGER),
      remaining = max 0 (min (if remaining t = 0 then DEFAULT_DURATION * 1000 else remaining t)
                             (MAX_DURATION * 1000)),
      isRunning = isRunning t,
      isPaused = isPaused t\<rparr>"

definition formatSession :: "session_internal \<Rightarrow> session" where
  "formatSession s =
     \<lparr>xSessionId = formatSessionId (sessionId s),
      xName = take MAX_STRING_LENGTH (trim (sname s)),
      xDescription = take MAX_STRING_LENGTH (trim (description s)),
      xIntervals = formatIntervalList (intervalList s),
      xTimer = formatTimer (timer s),
      xUsers = formatUserList (users s)\<rparr>"

definition formatSessionUpdate :: "session_update \<Rightarrow> session_update" where
  "formatSessionUpdate s =
     \<lparr>uName = take MAX_STRING_LENGTH (trim (uName s)),
      uDescription = take MAX_STRING_LENGTH (trim (uDescription s)),
      uIntervals = formatIntervalList (uIntervals s)\<rparr>"

subsection \<open>Incoming message formatters\<close>

definition formatSessionJoinMsg ::
  "string \<Rightarrow> session_update \<Rightarrow> timer_state \<Rightarrow> any_user \<Rightarrow> incoming" where
  "formatSessionJoinMsg sid su t u =
     SessionJoin (formatSessionId sid) (formatSessionUpdate su) (formatTimer t)
       (Plain (formatUser u))"

definition formatSessionUpdateMsg :: "session_update \<Rightarrow> timer_state option \<Rightarrow> incoming" where
  "formatSessionUpdateMsg su t = SessionUpdate (formatSessionUpdate su) (map_option formatTimer t)"

definition formatTimerUpdateMsg :: "timer_state \<Rightarrow> incoming" where
  "formatTimerUpdateMsg t = TimerUpdate (formatTimer t)"

definition formatUserUpdateMsg :: "any_user \<Rightarrow> incoming" where
  "formatUserUpdateMsg u = UserUpdate (Plain (formatUser u))"

text \<open>The dispatcher; an unknown type throws \<open>Error('Invalid message type')\<close>.\<close>

definition formatIncoming :: "incoming \<Rightarrow> codec_error + incoming" where
  "formatIncoming data =
     (case data of
        SessionJoin sid su t u \<Rightarrow> Inr (formatSessionJoinMsg sid su t u)
      | SessionUpdate su t \<Rightarrow> Inr (formatSessionUpdateMsg su t)
      | TimerUpdate t \<Rightarrow> Inr (formatTimerUpdateMsg t)
      | UserList \<Rightarrow> Inr UserList
      | UserUpdate u \<Rightarrow> Inr (formatUserUpdateMsg u)
      | Ping \<Rightarrow> Inr Ping
      | Unknown ty \<Rightarrow> Inl InvalidMessageType)"

subsection \<open>Outgoing message formatters\<close>

definition formatSessionCreatedMsg :: "string \<Rightarrow> string \<Rightarrow> string \<Rightarrow> outgoing" where
  "formatSessionCreatedMsg uuid sid cid =
     SessionCreated (formatSessionId sid) (formatClientId uuid cid)"

definition formatSessionJoinedMsg ::
  "string \<Rightarrow> string \<Rightarrow> string \<Rightarrow> session_internal \<Rightarrow> outgoing" where
  "formatSessionJoinedMsg uuid sid cid s =
     SessionJoined (formatSessionId sid) (formatClientId uuid cid) (formatSession s)"

definition formatUserConnectedMsg :: "string \<Rightarrow> user_internal \<Rightarrow> outgoing" where
  "formatUserConnectedMsg sid u = UserConnected (formatSessionId sid) (formatUser (Internal u))"

definition formatUserDisconnectedMsg :: "string \<Rightarrow> user_internal \<Rightarrow> outgoing" where
  "formatUserDisconnectedMsg sid u =
     UserDisconnected (formatSessionId sid) (formatUser (Internal u))"

definition formatUserUpdatedMsg :: "string \<Rightarrow> user_internal \<Rightarrow> outgoing" where
  "formatUserUpdatedMsg sid u = UserUpdated (formatSessionId sid) (formatUser (Internal u))"

definition formatUsersConnectedMsg :: "session_internal \<Rightarrow> outgoing" where
  "formatUsersConnectedMsg s =
     UsersConnected (formatSessionId (sessionId s)) (formatUserList (users s))"

definition formatSessionUpdatedMsg :: "session_internal \<Rightarrow> outgoing" where
  "formatSessionUpdatedMsg s =
     SessionUpdated (formatSessionId (sessionId s))
       \<lparr>uName = trim (sname s),
        uDescription = trim (description s),
        uIntervals = formatIntervalList (intervalList s)\<rparr>"

definition formatTimerUpdatedMsg :: "session_internal \<Rightarrow> outgoing" where
  "formatTimerUpdatedMsg s = TimerUpdated (formatSessionId (sessionId s)) (formatTimer (timer s))"

definition formatErrorMsg :: "string \<Rightarrow> outgoing" where
  "formatErrorMsg m = ErrorMsg (if trim m = [] then ''Unknown error'' else trim m)"

subsection \<open>Internal structure formatters\<close>

text \<open>
  \<open>formatInternalUser\<close> adds the connection state to the formatted user: \<open>lastPing\<close> falls
  back to the clock, \<open>offlineAt\<close> to 0 and \<open>ws\<close> to \<open>null\<close>. The object it returns has these
  seven properties and no other: a \<open>sockets\<close> property of the argument is not copied.
\<close>

definition formatInternalUser :: "int \<Rightarrow> any_user \<Rightarrow> user_internal" where
  "formatInternalUser now u =
     user.extend (formatUser u)
       (case u of
          Plain p \<Rightarrow> user_internal.fields now 0 None None
        | Internal i \<Rightarrow>
            user_internal.fields (if lastPing i = 0 then now else lastPing i) (offlineAt i)
              (ws i) None)"

definition formatInternalUsers ::
  "int \<Rightarrow> (string \<times> user_internal) list \<Rightarrow> (string \<times> user_internal) list" where
  "formatInternalUsers now us = map (\<lambda>(k, u). (k, formatInternalUser now (Internal u))) us"

definition formatInternalTimer :: "timer_internal \<Rightarrow> timer_internal" where
  "formatInternalTimer t =
     timer_state.extend (formatTimer t)
       (timer_internal.fields (startedInterval t) (startedAt t) (pausedAt t) (timePaused t))"

text \<open>
  \<open>formatInternalSession\<close> on a session object that already carries its timer core, user
  table and time stamps; the fall-backs \<open>createdAt || Date.now()\<close> and
  \<open>lastActivity || Date.now()\<close> apply to a zero stamp.
\<close>

definition formatInternalSession :: "int \<Rightarrow> session_internal \<Rightarrow> session_internal" where
  "formatInternalSession now s =
     \<lparr>sessionId = formatSessionId (sessionId s),
      sname = take MAX_STRING_LENGTH (trim (sname s)),
      description = take MAX_STRING_LENGTH (trim (description s)),
      intervalList = formatIntervalList (intervalList s),
      timer = formatInternalTimer (timer s),
      timerCore = timerCore s,
      users = formatInternalUsers now (users s),
      createdAt = (if createdAt s = 0 then now else createdAt s),
      lastActivity = (if lastActivity s = 0 then now else lastActivity s),
      emptyAt = emptyAt s\<rparr>"

text \<open>
  \<open>formatInternalSession({ sessionId, ...update })\<close>, the call of \<open>createSession\<close>: the object
  has no timer, timer core, users or time stamps, so the timer is the formatted empty
  timer, the timer core is a new one over the items of the update, the user table is empty
  and the stamps are the clock.
\<close>

definition formatNewSession :: "int \<Rightarrow> string \<Rightarrow> session_update \<Rightarrow> session_internal" where
  "formatNewSession now sid su =
     \<lparr>sessionId = formatSessionId sid,
      sname = take MAX_STRING_LENGTH (trim (uName su)),
      description = take MAX_STRING_LENGTH (trim (uDescription su)),
      intervalList = formatIntervalList (uIntervals su),
      timer = \<lparr>repeat = False, interval = 0, remaining = DEFAULT_DURATION * 1000,
                isRunning = False, isPaused = False,
                startedInterval = 0, startedAt = 0, pausedAt = 0, timePaused = 0\<rparr>,
      timerCore = newTimerCore (itemsOf (uIntervals su)),
      users = [],
      createdAt = now,
      lastActivity = now,
      emptyAt = 0\<rparr>"

section \<open>Session manager (the SessionManager class)\<close>

subsection \<open>Broker state\<close>

text \<open>
  A \<open>ServerWebSocket\<close> is a mutable object shared between the transport adapter and the
  session manager, so connections live in a table indexed by a handle. A connection
  carries the ids the session manager writes on it (\<open>null\<close> is the empty string, both are
  falsy), the \<open>readyState\<close> the transport maintains (1 is open), and the frames sent on it.
  The session map and every user table keep insertion order.
\<close>

record server_socket =
  wsSocketId :: string
  wsSessionId :: string
  wsClientId :: string
  readyState :: nat
  outbox :: "outgoing list"

record broker =
  sessions :: "(string \<times> session_internal) list"
  conns :: "nat \<Rightarrow> server_socket"

definition SESSION_TIMEOUT :: int where "SESSION_TIMEOUT = 10 * 60 * 1000"

text \<open>A connection as \<open>handleWebSocketConnection\<close> leaves it: open, with no ids.\<close>

definition newSocket :: server_socket where
  "newSocket = \<lparr>wsSocketId = [], wsSessionId = [], wsClientId = [], readyState = 1, outbox = []\<rparr>"

definition newBroker :: broker where
  "newBroker = \<lparr>sessions = [], conns = (\<lambda>h. newSocket)\<rparr>"

subsection \<open>Exceptions\<close>

text \<open>
  A method of the session manager returns or throws. Either way it leaves a broker state
  behind: what it wrote before a throw stays written. The only exception the modelled
  code raises is the \<open>TypeError\<close> of a call on \<open>undefined\<close>.
\<close>

datatype js_error = TypeError

datatype 'a outcome = Returned 'a | Threw js_error 'a

definition stateOf :: "'a outcome \<Rightarrow> 'a" where
  "stateOf r = (case r of Returned b \<Rightarrow> b | Threw e b \<Rightarrow> b)"

subsection \<open>Sending\<close>

text \<open>\<open>sendMessage\<close>: a frame for a connection that is not open is dropped.\<close>

definition sendMessage :: "nat \<Rightarrow> outgoing \<Rightarrow> broker \<Rightarrow> broker" where
  "sendMessage h msg b =
     (if readyState (conns b h) \<noteq> 1 then b
      else b\<lparr>conns := (conns b)(h := (conns b h)\<lparr>outbox := outbox (conns b h) @ [msg]\<rparr>)\<rparr>)"

definition sendError :: "nat \<Rightarrow> string \<Rightarrow> broker \<Rightarrow> broker" where
  "sendError h m b = sendMessage h (formatErrorMsg m) b"

text \<open>
  \<open>broadcastToSession(session, message, exclude, ignore)\<close> walks the users of the session
  in order. A user whose key is \<open>ignore\<close> is skipped; for any other user it calls
  \<open>user.sockets.forEach\<close>, which throws when the user has no \<open>sockets\<close>, and otherwise sends
  the message on every connection of the user whose socket id is not \<open>exclude\<close>. An empty
  \<open>exclude\<close> or \<open>ignore\<close> is the \<open>null\<close> default.
\<close>

definition sendToSockets :: "(string \<times> nat) list \<Rightarrow> outgoing \<Rightarrow> string \<Rightarrow> broker \<Rightarrow> broker" where
  "sendToSockets socks msg exclude b =
     fold (\<lambda>(sid, h) b1.
             if exclude \<noteq> [] \<and> exclude = wsSocketId (conns b1 h) then b1
             else sendMessage h msg b1)
          socks b"

fun broadcastUsers ::
  "(string \<times> user_internal) list \<Rightarrow> outgoing \<Rightarrow> string \<Rightarrow> string \<Rightarrow> broker \<Rightarrow> broker outcome" where
  "broadcastUsers [] msg exclude ignore b = Returned b"
| "broadcastUsers ((cid, u) # rest) msg exclude ignore b =
     (if ignore \<noteq> [] \<and> ignore = cid then broadcastUsers rest msg exclude ignore b
      else (case sockets u of
              None \<Rightarrow> Threw TypeError b
            | Some socks \<Rightarrow>
                broadcastUsers rest msg exclude ignore (sendToSockets socks msg exclude b)))"

definition broadcastToSession ::
  "session_internal \<Rightarrow> outgoing \<Rightarrow> string \<Rightarrow> string \<Rightarrow> broker \<Rightarrow> broker outcome" where
  "broadcastToSession s msg exclude ignore b = broadcastUsers (users s) msg exclude ignore b"

text \<open>
  \<open>Array.from(u.sockets.values()).some(ws => ws.readyState === 1)\<close> for one user, then
  \<open>Object.values(session.users).some(...)\<close> (which stops at the first user that is online)
  and \<open>Object.values(session.users).filter(...).length\<close> over a user table.
\<close>

definition userOnline :: "broker \<Rightarrow> user_internal \<Rightarrow> js_error + bool" where
  "userOnline b u =
     (case sockets u of
        None \<Rightarrow> Inl TypeError
      | Some socks \<Rightarrow> Inr (list_ex (\<lambda>(sid, h). readyState (conns b h) = 1) socks))"

fun hasOnline :: "broker \<Rightarrow> (string \<times> user_internal) list \<Rightarrow> js_error + bool" where
  "hasOnline b [] = Inr False"
| "hasOnline b ((cid, u) # rest) =
     (case userOnline b u of
        Inl e \<Rightarrow> Inl e
      | Inr on \<Rightarrow> if on then Inr True else hasOnline b rest)"

fun onlineCount :: "broker \<Rightarrow> (string \<times> user_internal) list \<Rightarrow> js_error + nat" where
  "onlineCount b [] = Inr 0"
| "onlineCount b ((cid, u) # rest) =
     (case userOnline b u of
        Inl e \<Rightarrow> Inl e
      | Inr on \<Rightarrow> (case onlineCount b rest of
                    Inl e \<Rightarrow> Inl e
                  | Inr n \<Rightarrow> Inr (if on then Suc n else n)))"

subsection \<open>The session store\<close>

definition getSession :: "string \<Rightarrow> broker \<Rightarrow> session_internal option" where
  "getSession sid b = map_of (sessions b) sid"

text \<open>\<open>setSession\<close> stores a freshly formatted copy; an empty id stores nothing.\<close>

definition setSession :: "int \<Rightarrow> string \<Rightarrow> session_internal \<Rightarrow> broker \<Rightarrow> broker" where
  "setSession now sid s b =
     (if sid = [] then b
      else b\<lparr>sessions := AList.update sid (formatInternalSession now s) (sessions b)\<rparr>)"

text \<open>
  A write to the session object that the store holds under \<open>key\<close> (the source mutates the
  object it got from \<open>getSession\<close> in place).
\<close>

definition mutateStored :: "string \<Rightarrow> session_internal \<Rightarrow> broker \<Rightarrow> broker" where
  "mutateStored key s b =
     (case map_of (sessions b) key of
        None \<Rightarrow> b
      | Some old \<Rightarrow> b\<lparr>sessions := AList.update key s (sessions b)\<rparr>)"

text \<open>
  The timer core is one object shared by a session and its stored copy: a call on it
  after \<open>setSession\<close> also shows in the store.
\<close>

definition shareTimerCore :: "string \<Rightarrow> timer_core \<Rightarrow> broker \<Rightarrow> broker" where
  "shareTimerCore key tc b =
     (case map_of (sessions b) key of
        None \<Rightarrow> b
      | Some old \<Rightarrow> b\<lparr>sessions := AList.update key (old\<lparr>timerCore := tc\<rparr>) (sessions b)\<rparr>)"

definition createSession ::
  "int \<Rightarrow> string \<Rightarrow> session_update \<Rightarrow> timer_state \<Rightarrow> broker \<Rightarrow> broker \<times> session_internal" where
  "createSession now sid upd tmr b =
     (let s0 = formatNewSession now sid upd;
          tc1 = updateIntervals now (itemsOf (intervalList s0)) (timerCore s0);
          tc2 = updateState now tmr tc1;
          s1 = s0\<lparr>timerCore := tc2, timer := state tc2\<rparr>
      in (setSession now (sessionId s1) s1 b, s1))"

text \<open>
  \<open>getSocketSession\<close>: the session of the connection, with \<open>lastActivity\<close> bumped and the
  session stored again; without a session the sender gets \<open>Session not found\<close>. The store
  now holds the formatted copy, so what the caller writes to the session it got reaches
  the store with the caller's own \<open>setSession\<close>.
\<close>

definition getSocketSession :: "int \<Rightarrow> nat \<Rightarrow> broker \<Rightarrow> broker \<times> session_internal option" where
  "getSocketSession now h b =
     (case getSession (wsSessionId (conns b h)) b of
        None \<Rightarrow> (sendError h ''Session not found'' b, None)
      | Some s \<Rightarrow>
          (let s1 = s\<lparr>lastActivity := now\<rparr>
           in (setSession now (sessionId s1) s1 (mutateStored (wsSessionId (conns b h)) s1 b),
               Some s1)))"

subsection \<open>Message handlers\<close>

text \<open>
  In \<open>handleSessionJoin\<close> the variable \<open>session\<close> is the stored object when the session was
  found, and a new object whose formatted copy is in the store when the session was just
  created. A write to \<open>session\<close> shows in the store in the first case; in the second only
  the shared timer core does.
\<close>

definition writeThrough :: "bool \<Rightarrow> string \<Rightarrow> session_internal \<Rightarrow> broker \<Rightarrow> broker" where
  "writeThrough isNew key s b =
     (if isNew then shareTimerCore (sessionId s) (timerCore s) b else mutateStored key s b)"

text \<open>
  The end of \<open>handleSessionJoin\<close>, common to the two branches: the session is stored, the
  sender gets \<open>session_created\<close> or \<open>session_joined\<close>, and \<open>user_connected\<close> is broadcast
  to the other users.
\<close>

definition finishSessionJoin ::
  "int \<Rightarrow> string \<Rightarrow> string \<Rightarrow> nat \<Rightarrow> string \<Rightarrow> string \<Rightarrow> bool \<Rightarrow> session_internal \<Rightarrow> user_internal
   \<Rightarrow> broker \<Rightarrow> broker outcome" where
  "finishSessionJoin now sid uuid h sessId cid isNew s joined b =
     (let b3 = setSession now (sessionId s) s (writeThrough isNew sessId s b);
          b4 = sendMessage h
                 (if isNew then formatSessionCreatedMsg uuid sessId cid
                  else formatSessionJoinedMsg uuid sessId cid s) b3
      in broadcastToSession s (formatUserConnectedMsg (sessionId s) joined) sid cid b4)"

text \<open>
  \<open>handleSessionJoin\<close>. \<open>hashString\<close> is Node's SHA-256 and is the argument \<open>H\<close>; the two
  random ids are arguments too: \<open>sid\<close> is the socket id drawn for the connection and
  \<open>uuid\<close> what \<open>generateUUID()\<close> returns when a client id has to be replaced. The result is
  \<open>None\<close> when the call of \<open>sync()\<close> does not return. In the branch for an existing user,
  \<open>sockets.set\<close> throws when the stored user has no \<open>sockets\<close>; \<open>Object.assign\<close> copies the
  seven properties of the formatted user onto the stored one, whose \<open>sockets\<close> stays.
\<close>

definition handleSessionJoin ::
  "(string \<Rightarrow> string) \<Rightarrow> int \<Rightarrow> string \<Rightarrow> string \<Rightarrow> nat \<Rightarrow>
   string \<Rightarrow> session_update \<Rightarrow> timer_state \<Rightarrow> any_user \<Rightarrow> broker \<Rightarrow> broker outcome option" where
  "handleSessionJoin H now sid uuid h sessId upd tmr usr b =
     (let cid = formatClientId uuid (clientId (plainOf usr));
          b1 = b\<lparr>conns := (conns b)(h := (conns b h)\<lparr>wsSocketId := sid, wsSessionId := sessId,
                                                     wsClientId := cid\<rparr>)\<rparr>;
          found = getSession sessId b1;
          isNew = (found = None);
          (b2, s) = (case found of None \<Rightarrow> createSession now sessId upd tmr b1
                                 | Some s0 \<Rightarrow> (b1, s0));
          existing = map_of (users s) cid
      in case sync now (timerCore s) of
           None \<Rightarrow> None
         | Some tc \<Rightarrow>
             (let s1 = s\<lparr>timerCore := tc, timer := state tc\<rparr>
              in case existing of
                   Some ex \<Rightarrow>
                     (case sockets ex of
                        None \<Rightarrow> Some (Threw TypeError (writeThrough isNew sessId s1 b2))
                      | Some socks \<Rightarrow>
                          (let socks1 = AList.update sid h socks;
                               ex1 = (formatInternalUser now
                                        (Internal \<lparr>clientId = clientId (plainOf usr),
                                                   uname = uname (plainOf usr),
                                                   avatarUrl = avatarUrl (plainOf usr),
                                                   isOnline = isOnline (plainOf usr),
                                                   lastPing = now, offlineAt = 0,
                                                   ws = (case usr of Plain p \<Rightarrow> None
                                                                   | Internal i \<Rightarrow> ws i),
                                                   sockets = Some socks1\<rparr>))
                                     \<lparr>sockets := Some socks1\<rparr>;
                               s2 = s1\<lparr>users := AList.update cid ex1 (users s1)\<rparr>
                           in case hasOnline b2 (users s2) of
                                Inl e \<Rightarrow> Some (Threw e (writeThrough isNew sessId s2 b2))
                              | Inr on \<Rightarrow>
                                  Some (finishSessionJoin now sid uuid h sessId cid isNew
                                          (if on \<and> emptyAt s2 \<noteq> 0 then s2\<lparr>emptyAt := 0\<rparr> else s2)
                                          ex1 b2)))
                 | None \<Rightarrow>
                     (let joined = formatInternalUser now
                                     (Internal \<lparr>clientId = H cid, uname = uname (plainOf usr),
                                                avatarUrl = avatarUrl (plainOf usr),
                                                isOnline = True,
                                                lastPing = now, offlineAt = 0, ws = None,
                                                sockets = Some [(sid, h)]\<rparr>);
                          s2 = s1\<lparr>users := AList.update cid joined (users s1)\<rparr>
                      in Some (finishSessionJoin now sid uuid h sessId cid isNew s2 joined b2))))"

text \<open>
  \<open>broadcastTimerUpdate\<close>: \<open>session.timer = session.timerCore.sync()\<close>, then the
  \<open>timer_updated\<close> broadcast.
\<close>

definition broadcastTimerUpdate ::
  "int \<Rightarrow> session_internal \<Rightarrow> string \<Rightarrow> broker \<Rightarrow> broker outcome option" where
  "broadcastTimerUpdate now s exclude b =
     (case sync now (timerCore s) of
        None \<Rightarrow> None
      | Some tc \<Rightarrow>
          (let s1 = s\<lparr>timerCore := tc, timer := state tc\<rparr>
           in Some (broadcastToSession s1 (formatTimerUpdatedMsg s1) exclude []
                      (shareTimerCore (sessionId s) tc b))))"

text \<open>
  \<open>handleSessionUpdate\<close>. The session is stored before the two broadcasts; a throw in the
  first one skips the second.
\<close>

definition handleSessionUpdate ::
  "int \<Rightarrow> nat \<Rightarrow> session_update \<Rightarrow> timer_state option \<Rightarrow> broker \<Rightarrow> broker outcome option" where
  "handleSessionUpdate now h upd tmr b =
     (case getSocketSession now h b of
        (b1, None) \<Rightarrow> Some (Returned b1)
      | (b1, Some s) \<Rightarrow>
          (case items (uIntervals upd) of
             NotArray \<Rightarrow> Some (Returned (sendError h ''Invalid intervals data'' b1))
           | Array xs \<Rightarrow>
               (let s1 = s\<lparr>sname := uName upd, description := uDescription upd,
                           intervalList := uIntervals upd\<rparr>;
                    tc1 = updateIntervals now xs (timerCore s1)
                in case (case tmr of Some t \<Rightarrow> Some (updateState now t tc1)
                                   | None \<Rightarrow> sync now tc1) of
                     None \<Rightarrow> None
                   | Some tc2 \<Rightarrow>
                       (let s2 = s1\<lparr>timerCore := tc2, timer := state tc2\<rparr>;
                            b2 = setSession now (sessionId s2) s2 b1
                        in case broadcastToSession s2 (formatSessionUpdatedMsg s2)
                                  (wsSocketId (conns b2 h)) [] b2 of
                             Threw e b3 \<Rightarrow> Some (Threw e b3)
                           | Returned b3 \<Rightarrow>
                               broadcastTimerUpdate now s2 (wsSocketId (conns b3 h)) b3))))"

definition handleTimerUpdate ::
  "int \<Rightarrow> nat \<Rightarrow> timer_state \<Rightarrow> broker \<Rightarrow> broker outcome option" where
  "handleTimerUpdate now h tmr b =
     (case getSocketSession now h b of
        (b1, None) \<Rightarrow> Some (Returned b1)
      | (b1, Some s) \<Rightarrow>
          (let tc = updateState now tmr (timerCore s);
               s1 = s\<lparr>timerCore := tc, timer := state tc\<rparr>;
               b2 = setSession now (sessionId s1) s1 b1
           in broadcastTimerUpdate now s1 (wsSocketId (conns b2 h)) b2))"

definition handleUserUpdate :: "int \<Rightarrow> nat \<Rightarrow> any_user \<Rightarrow> broker \<Rightarrow> broker outcome" where
  "handleUserUpdate now h usr b =
     (let cid = wsClientId (conns b h) in
      if cid = [] then Returned b
      else
        (case getSocketSession now h b of
           (b1, None) \<Rightarrow> Returned b1
         | (b1, Some s) \<Rightarrow>
             (case map_of (users s) cid of
                None \<Rightarrow> Returned b1
              | Some ex \<Rightarrow>
                  (let ex1 = ex\<lparr>uname := uname (plainOf usr),
                                avatarUrl := avatarUrl (plainOf usr)\<rparr>;
                       s1 = s\<lparr>users := AList.update cid ex1 (users s)\<rparr>;
                       b2 = setSession now (sessionId s1) s1 b1
                   in broadcastToSession s1 (formatUserUpdatedMsg (sessionId s1) ex1)
                        (wsSocketId (conns b2 h)) [] b2))))"

definition handleUserList :: "int \<Rightarrow> nat \<Rightarrow> broker \<Rightarrow> broker" where
  "handleUserList now h b =
     (case getSocketSession now h b of
        (b1, None) \<Rightarrow> b1
      | (b1, Some s) \<Rightarrow> sendMessage h (formatUsersConnectedMsg s) b1)"

text \<open>The \<open>type\<close> of a raw message, as the \<open>catch\<close> branch prints it.\<close>

definition messageType :: "incoming \<Rightarrow> string" where
  "messageType m =
     (case m of
        SessionJoin a b c d \<Rightarrow> ''session_join''
      | SessionUpdate a b \<Rightarrow> ''session_update''
      | TimerUpdate a \<Rightarrow> ''timer_update''
      | UserUpdate a \<Rightarrow> ''user_update''
      | UserList \<Rightarrow> ''user_list''
      | Ping \<Rightarrow> ''ping''
      | Unknown ty \<Rightarrow> (if ty = [] then ''unknown'' else ty))"

text \<open>
  The body of the \<open>try\<close> in \<open>handleMessage\<close> once the message is formatted: the handler
  registered for the type, or \<open>Unknown message type\<close>. There is no handler for \<open>ping\<close> (the
  transport adapter answers it before it gets here).
\<close>

definition dispatch ::
  "(string \<Rightarrow> string) \<Rightarrow> int \<Rightarrow> string \<Rightarrow> string \<Rightarrow> nat \<Rightarrow> incoming \<Rightarrow> broker
   \<Rightarrow> broker outcome option" where
  "dispatch H now sid uuid h parsed b =
     (case parsed of
        SessionJoin sessId upd tmr usr \<Rightarrow>
          handleSessionJoin H now sid uuid h sessId upd tmr usr b
      | SessionUpdate upd tmr \<Rightarrow> handleSessionUpdate now h upd tmr b
      | TimerUpdate tmr \<Rightarrow> handleTimerUpdate now h tmr b
      | UserUpdate usr \<Rightarrow> Some (handleUserUpdate now h usr b)
      | UserList \<Rightarrow> Some (Returned (handleUserList now h b))
      | Ping \<Rightarrow> Some (Returned (sendError h ''Unknown message type'' b))
      | Unknown ty \<Rightarrow> Some (Returned (sendError h ''Unknown message type'' b)))"

text \<open>
  \<open>handleMessage\<close>: the raw message is formatted first and the handler gets the formatted
  message. The \<open>catch\<close> branch answers any thrown \<open>Error\<close>, that of \<open>formatIncoming\<close> or one
  from a handler, with \<open>Failed to process <type>\<close>; what the handler wrote before it threw
  stays.
\<close>

definition handleMessage ::
  "(string \<Rightarrow> string) \<Rightarrow> int \<Rightarrow> string \<Rightarrow> string \<Rightarrow> nat \<Rightarrow> incoming \<Rightarrow> broker
   \<Rightarrow> broker option" where
  "handleMessage H now sid uuid h message b =
     (case formatIncoming message of
        Inl err \<Rightarrow> Some (sendError h (''Failed to process '' @ messageType message) b)
      | Inr parsed \<Rightarrow>
          (case dispatch H now sid uuid h parsed b of
             None \<Rightarrow> None
           | Some (Returned b1) \<Rightarrow> Some b1
           | Some (Threw e b1) \<Rightarrow>
               Some (sendError h (''Failed to process '' @ messageType message) b1)))"

subsection \<open>Disconnects and the cleanup ticker\<close>

text \<open>
  \<open>removeClient(ws)\<close>, called by the transport adapter when a connection has closed. The
  session and the user are the objects in the store and are changed in place.
  \<open>user.sockets.delete\<close> throws when the user has no \<open>sockets\<close>. Nothing catches what
  \<open>removeClient\<close> throws.
\<close>

definition removeClient :: "int \<Rightarrow> nat \<Rightarrow> broker \<Rightarrow> broker outcome" where
  "removeClient now h b =
     (let c = conns b h in
      if wsSocketId c = [] \<or> wsSessionId c = [] \<or> wsClientId c = [] then Returned b
      else
        (case getSession (wsSessionId c) b of
           None \<Rightarrow> Returned b
         | Some s \<Rightarrow>
             (case map_of (users s) (wsClientId c) of
                None \<Rightarrow> Returned b
              | Some u \<Rightarrow>
                  (case sockets u of
                     None \<Rightarrow> Threw TypeError b
                   | Some socks \<Rightarrow>
                       (let u1 = u\<lparr>sockets := Some (AList.delete (wsSocketId c) socks)\<rparr>;
                            s1 = s\<lparr>users := AList.update (wsClientId c) u1 (users s)\<rparr>
                        in if AList.delete (wsSocketId c) socks \<noteq> []
                           then Returned (mutateStored (wsSessionId c) s1 b)
                           else
                             (let u2 = u1\<lparr>offlineAt := now\<rparr>;
                                  s2 = s1\<lparr>users := AList.update (wsClientId c) u2 (users s1)\<rparr>
                              in case broadcastToSession s2
                                        (formatUserUpdatedMsg (sessionId s2) u2)
                                        (wsSocketId c) (wsClientId c) b of
                                   Threw e b1 \<Rightarrow> Threw e (mutateStored (wsSessionId c) s2 b1)
                                 | Returned b1 \<Rightarrow>
                                     (case hasOnline b1 (users s2) of
                                        Inl e \<Rightarrow> Threw e (mutateStored (wsSessionId c) s2 b1)
                                      | Inr on \<Rightarrow>
                                          Returned
                                            (mutateStored (wsSessionId c)
                                               (if \<not> on \<and> emptyAt s2 = 0
                                                then s2\<lparr>emptyAt := now\<rparr> else s2)
                                               b1))))))))"

text \<open>
  The transport's close event: the connection is no longer open (state 3, closed) when
  \<open>handleWebSocketClose\<close> calls \<open>removeClient\<close>.
\<close>

definition handleWebSocketClose :: "int \<Rightarrow> nat \<Rightarrow> broker \<Rightarrow> broker outcome" where
  "handleWebSocketClose now h b =
     removeClient now h (b\<lparr>conns := (conns b)(h := (conns b h)\<lparr>readyState := 3\<rparr>)\<rparr>)"

text \<open>
  \<open>cleanupSessions\<close> walks the session map; a session with no user online whose empty
  stamp is older than the timeout is deleted. Counting the users online throws at the
  first user without \<open>sockets\<close>; the sessions deleted before that stay deleted.
\<close>

fun cleanupSessionsFrom ::
  "int \<Rightarrow> (string \<times> session_internal) list \<Rightarrow> broker \<Rightarrow> broker outcome" where
  "cleanupSessionsFrom now [] b = Returned b"
| "cleanupSessionsFrom now ((key, s) # rest) b =
     (case onlineCount b (users s) of
        Inl e \<Rightarrow> Threw e b
      | Inr online \<Rightarrow>
          cleanupSessionsFrom now rest
            (if online = 0 \<and> emptyAt s \<noteq> 0 \<and> now - emptyAt s > SESSION_TIMEOUT
             then b\<lparr>sessions := AList.delete key (sessions b)\<rparr> else b))"

definition cleanupSessions :: "int \<Rightarrow> broker \<Rightarrow> broker outcome" where
  "cleanupSessions now b = cleanupSessionsFrom now (sessions b) b"

text \<open>
  \<open>trackOfflineUsers\<close> marks, user by user and session by session, the users that have
  gone offline and unmarks those that are back. It throws at the first user without
  \<open>sockets\<close>; the marks made before that stay. The two functions return the table as far
  as it was rewritten, with the error if there was one.
\<close>

fun trackUsers ::
  "int \<Rightarrow> broker \<Rightarrow> (string \<times> user_internal) list
   \<Rightarrow> js_error option \<times> (string \<times> user_internal) list" where
  "trackUsers now b [] = (None, [])"
| "trackUsers now b ((cid, u) # rest) =
     (case userOnline b u of
        Inl e \<Rightarrow> (Some e, (cid, u) # rest)
      | Inr on \<Rightarrow>
          (let u1 = (if \<not> on \<and> offlineAt u = 0 then u\<lparr>offlineAt := now\<rparr>
                     else if on \<and> offlineAt u \<noteq> 0 then u\<lparr>offlineAt := 0\<rparr>
                     else u);
               (e, rest1) = trackUsers now b rest
           in (e, (cid, u1) # rest1)))"

fun trackSessions ::
  "int \<Rightarrow> broker \<Rightarrow> (string \<times> session_internal) list
   \<Rightarrow> js_error option \<times> (string \<times> session_internal) list" where
  "trackSessions now b [] = (None, [])"
| "trackSessions now b ((key, s) # rest) =
     (case trackUsers now b (users s) of
        (Some e, us) \<Rightarrow> (Some e, (key, s\<lparr>users := us\<rparr>) # rest)
      | (None, us) \<Rightarrow>
          (let (e, rest1) = trackSessions now b rest
           in (e, (key, s\<lparr>users := us\<rparr>) # rest1)))"

definition trackOfflineUsers :: "int \<Rightarrow> broker \<Rightarrow> broker outcome" where
  "trackOfflineUsers now b =
     (case trackSessions now b (sessions b) of
        (None, ss) \<Rightarrow> Returned (b\<lparr>sessions := ss\<rparr>)
      | (Some e, ss) \<Rightarrow> Threw e (b\<lparr>sessions := ss\<rparr>))"

text \<open>
  One session's share of \<open>cleanupOfflineUsers\<close>: the users offline for longer than the
  cleanup interval are removed one by one, each removal announced to the users that are
  left (a broadcast, which can throw); a session left without users and not yet marked is
  stamped. The session is the stored object and is changed in place.
  \<open>CLEANUP_INTERVAL\<close> comes from the environment and is the argument \<open>cleanupInterval\<close>.
\<close>

fun reapUsers ::
  "string \<Rightarrow> string list \<Rightarrow> session_internal \<Rightarrow> broker
   \<Rightarrow> js_error option \<times> session_internal \<times> broker" where
  "reapUsers key [] s b = (None, s, b)"
| "reapUsers key (cid # rest) s b =
     (case map_of (users s) cid of
        None \<Rightarrow> reapUsers key rest s b
      | Some u \<Rightarrow>
          (let s1 = s\<lparr>users := AList.delete cid (users s)\<rparr>
           in case broadcastToSession s1 (formatUserDisconnectedMsg key u) [] cid b of
                Threw e b1 \<Rightarrow> (Some e, s1, b1)
              | Returned b1 \<Rightarrow> reapUsers key rest s1 b1))"

definition reapSessionUsers ::
  "int \<Rightarrow> int \<Rightarrow> string \<Rightarrow> session_internal \<Rightarrow> broker \<Rightarrow> broker outcome" where
  "reapSessionUsers cleanupInterval now key s b =
     (let remove = map fst (filter (\<lambda>(cid, u). offlineAt u \<noteq> 0
                                                \<and> now - offlineAt u > cleanupInterval) (users s))
      in case reapUsers key remove s b of
           (Some e, s1, b1) \<Rightarrow> Threw e (mutateStored key s1 b1)
         | (None, s1, b1) \<Rightarrow>
             Returned (mutateStored key
                         (if users s1 = [] \<and> emptyAt s1 = 0 then s1\<lparr>emptyAt := now\<rparr> else s1)
                         b1))"

fun reapSessions ::
  "int \<Rightarrow> int \<Rightarrow> (string \<times> session_internal) list \<Rightarrow> broker \<Rightarrow> broker outcome" where
  "reapSessions cleanupInterval now [] b = Returned b"
| "reapSessions cleanupInterval now ((key, s) # rest) b =
     (case reapSessionUsers cleanupInterval now key s b of
        Threw e b1 \<Rightarrow> Threw e b1
      | Returned b1 \<Rightarrow> reapSessions cleanupInterval now rest b1)"

definition cleanupOfflineUsers :: "int \<Rightarrow> int \<Rightarrow> broker \<Rightarrow> broker outcome" where
  "cleanupOfflineUsers cleanupInterval now b =
     (case trackOfflineUsers now b of
        Threw e b1 \<Rightarrow> Threw e b1
      | Returned b1 \<Rightarrow> reapSessions cleanupInterval now (sessions b1) b1)"

text \<open>
  The ticker of \<open>startCleanup\<close>: sessions first, then offline users; a throw in the first
  skips the second.
\<close>

definition cleanupTick :: "int \<Rightarrow> int \<Rightarrow> broker \<Rightarrow> broker outcome" where
  "cleanupTick cleanupInterval now b =
     (case cleanupSessions now b of
        Threw e b1 \<Rightarrow> Threw e b1
      | Returned b1 \<Rightarrow> cleanupOfflineUsers cleanupInterval now b1)"

section \<open>Predicates and sample data used by the properties\<close>

text \<open>
  The time, in milliseconds, from the start of interval \<open>k\<close> to the end of the list.
\<close>

definition totalMs :: "interval_item list \<Rightarrow> nat \<Rightarrow> int" where
  "totalMs ivs k = sum_list (map (\<lambda>i. duration i * 1000) (drop k ivs))"

text \<open>
  The invariant of a stopped timer: no baseline, no pause stamp, no accumulated pause, not
  paused.
\<close>

definition timer_invariant :: "timer_internal \<Rightarrow> bool" where
  "timer_invariant t =
     (\<not> isRunning t \<longrightarrow> startedAt t = 0 \<and> pausedAt t = 0 \<and> timePaused t = 0 \<and> \<not> isPaused t)"

text \<open>
  The interval list of the spec's scenarios (25 s of work, a 5 s break, a 15 s long break)
  and a running external state with no time left.
\<close>

definition sample_items :: "interval_item list" where
  "sample_items =
     [\<lparr>iname = ''Work'', duration = 25, alert = ''Default'', customCSS = ''''\<rparr>,
      \<lparr>iname = ''Break'', duration = 5, alert = ''Default'', customCSS = ''''\<rparr>,
      \<lparr>iname = ''LongBreak'', duration = 15, alert = ''Default'', customCSS = ''''\<rparr>]"

definition ext_zero :: timer_state where
  "ext_zero = \<lparr>repeat = False, interval = 0, remaining = 0, isRunning = True, isPaused = False\<rparr>"

text \<open>
  A string survives trim-then-truncate unchanged on a second pass exactly when the
  truncation does not cut it right after a white-space character: the trimmed string fits
  the limit, or the last character kept is not white space.
\<close>

definition fitsAfterTrim :: "nat \<Rightarrow> string \<Rightarrow> bool" where
  "fitsAfterTrim n s = (length (trim s) \<le> n \<or> \<not> isWhitespace (trim s ! (n - 1)))"

text \<open>
  The string fields each formatter truncates, and the timer's \<open>remaining\<close>, which
  \<open>formatTimer\<close> moves twice when it is negative (to 0, then to the default). A user object
  with a truthy \<open>offlineAt\<close> is not stable either: \<open>formatUser\<close> makes it \<open>isOnline = false\<close> and
  drops the key, so a second pass makes it \<open>isOnline = true\<close>.
\<close>

definition stableUser :: "any_user \<Rightarrow> bool" where
  "stableUser u =
     (fitsAfterTrim MAX_NAME_LENGTH (uname (plainOf u))
      \<and> fitsAfterTrim MAX_URL_LENGTH (avatarUrl (plainOf u))
      \<and> (case u of Plain p \<Rightarrow> True | Internal i \<Rightarrow> offlineAt i = 0))"

definition stableInterval :: "interval_item \<Rightarrow> bool" where
  "stableInterval i = (fitsAfterTrim MAX_NAME_LENGTH (iname i) \<and> fitsAfterTrim MAX_NAME_LENGTH (alert i))"

definition stableSessionUpdate :: "session_update \<Rightarrow> bool" where
  "stableSessionUpdate su =
     (fitsAfterTrim MAX_STRING_LENGTH (uName su) \<and> fitsAfterTrim MAX_STRING_LENGTH (uDescription su)
      \<and> list_all stableInterval (itemsOf (uIntervals su)))"

definition stableTimer :: "timer_state \<Rightarrow> bool" where
  "stableTimer t = (0 \<le> remaining t)"

fun stableMessage :: "incoming \<Rightarrow> bool" where
  "stableMessage (SessionJoin sid su t u) = (stableSessionUpdate su \<and> stableTimer t \<and> stableUser u)"
| "stableMessage (SessionUpdate su t) = (stableSessionUpdate su \<and> (case t of None \<Rightarrow> True | Some x \<Rightarrow> stableTimer x))"
| "stableMessage (TimerUpdate t) = stableTimer t"
| "stableMessage (UserUpdate u) = stableUser u"
| "stableMessage UserList = True"
| "stableMessage Ping = True"
| "stableMessage (Unknown ty) = False"

text \<open>
  A string with no white space at either end.
\<close>

definition trimmed :: "string \<Rightarrow> bool" where
  "trimmed s = (s = [] \<or> (\<not> isWhitespace (hd s) \<and> \<not> isWhitespace (last s)))"

text \<open>
  A user name of 49 letters, a space and a letter; what one pass of the codec makes of it;
  and what a second pass makes of that.
\<close>

definition long_name :: string where
  "long_name = ''aaaaaaaaaaaaaaaaaaaaaaaaaaaaaaaaaaaaaaaaaaaaaaaaa b''"

definition cut_name :: string where
  "cut_name = ''aaaaaaaaaaaaaaaaaaaaaaaaaaaaaaaaaaaaaaaaaaaaaaaaa ''"

definition short_name :: string where
  "short_name = ''aaaaaaaaaaaaaaaaaaaaaaaaaaaaaaaaaaaaaaaaaaaaaaaaa''"

text \<open>
  A \<open>session_update\<close> that needs trimming and defaults, and its formatted form.
\<close>

definition sample_update :: incoming where
  "sample_update =
     SessionUpdate
       \<lparr>uName = ''  Sprint planning '', uDescription = ''Focus blocks'',
        uIntervals = \<lparr>lastUpdated = 1000000,
                       items = Array [\<lparr>iname = '' Work'', duration = 0, alert = '''',
                                        customCSS = '' body { } ''\<rparr>]\<rparr>\<rparr>
       (Some \<lparr>repeat = True, interval = 0, remaining = 0, isRunning = False, isPaused = False\<rparr>)"

definition sample_update_formatted :: incoming where
  "sample_update_formatted =
     SessionUpdate
       \<lparr>uName = ''Sprint planning'', uDescription = ''Focus blocks'',
        uIntervals = \<lparr>lastUpdated = 1000000,
                       items = Array [\<lparr>iname = ''Work'', duration = 1500, alert = ''Default'',
                                        customCSS = ''body { }''\<rparr>]\<rparr>\<rparr>
       (Some \<lparr>repeat = True, interval = 0, remaining = 1500000, isRunning = False,
              isPaused = False\<rparr>)"

text \<open>Sample participants and messages for the broker scenarios.\<close>

definition alice_id :: string where
  "alice_id = ''11111111-1111-4111-8111-111111111111''"

definition bob_id :: string where
  "bob_id = ''22222222-2222-4222-8222-222222222222''"

definition fresh_id :: string where
  "fresh_id = ''99999999-9999-4999-8999-999999999999''"

definition room :: string where
  "room = ''room-1''"

definition alice :: user where
  "alice = \<lparr>clientId = alice_id, uname = ''Alice'', avatarUrl = [], isOnline = True\<rparr>"

definition bob :: user where
  "bob = \<lparr>clientId = bob_id, uname = ''Bob'', avatarUrl = [], isOnline = True\<rparr>"

definition sample_session :: session_update where
  "sample_session =
     \<lparr>uName = ''Sprint'', uDescription = ''Focus'',
      uIntervals = \<lparr>lastUpdated = 1000000, items = Array sample_items\<rparr>\<rparr>"

definition idle_timer :: timer_state where
  "idle_timer =
     \<lparr>repeat = False, interval = 0, remaining = 25000, isRunning = False, isPaused = False\<rparr>"

definition joinMsg :: "user \<Rightarrow> incoming" where
  "joinMsg u = SessionJoin room sample_session idle_timer (Plain u)"

definition bad_update :: incoming where
  "bad_update =
     SessionUpdate \<lparr>uName = ''Renamed'', uDescription = ''Changed'',
                    uIntervals = \<lparr>lastUpdated = 1030000, items = NotArray\<rparr>\<rparr> None"

text \<open>
  The states the sample runs pass through. All of them have the one session \<open>room\<close>, with
  an idle timer; they differ in the user table and the connections. A stored user is what
  \<open>formatInternalUser\<close> returns: no connection and no \<open>sockets\<close>.
\<close>

definition idle_internal :: timer_internal where
  "idle_internal =
     \<lparr>repeat = False, interval = 0, remaining = 25000, isRunning = False, isPaused = False,
      startedInterval = 0, startedAt = 0, pausedAt = 0, timePaused = 0\<rparr>"

definition room_session :: "(string \<times> user_internal) list \<Rightarrow> int \<Rightarrow> session_internal" where
  "room_session us act =
     \<lparr>sessionId = room, sname = ''Sprint'', description = ''Focus'',
      intervalList = \<lparr>lastUpdated = 1000000, items = Array sample_items\<rparr>,
      timer = idle_internal,
      timerCore = \<lparr>intervals = sample_items, state = idle_internal\<rparr>,
      users = us, createdAt = 1000000, lastActivity = act, emptyAt = 0\<rparr>"

definition member :: "string \<Rightarrow> string \<Rightarrow> int \<Rightarrow> user_internal" where
  "member cid nm ping =
     \<lparr>clientId = cid, uname = nm, avatarUrl = [], isOnline = True,
      lastPing = ping, offlineAt = 0, ws = None, sockets = None\<rparr>"

definition conn :: "string \<Rightarrow> string \<Rightarrow> nat \<Rightarrow> outgoing list \<Rightarrow> server_socket" where
  "conn sid cid rs out =
     \<lparr>wsSocketId = sid, wsSessionId = room, wsClientId = cid, readyState = rs, outbox = out\<rparr>"

text \<open>Alice has created the room on connection 0.\<close>

definition state_created :: "(string \<Rightarrow> string) \<Rightarrow> broker" where
  "state_created H =
     \<lparr>sessions = [(room, room_session [(alice_id, member (H alice_id) ''Alice'' 1000000)] 1000000)],
      conns = (\<lambda>h. newSocket)(0 := conn ''s0'' alice_id 1 [SessionCreated room alice_id])\<rparr>"

text \<open>Then connection 0 has closed; nothing else has changed.\<close>

definition state_closed :: "(string \<Rightarrow> string) \<Rightarrow> broker" where
  "state_closed H =
     \<lparr>sessions = [(room, room_session [(alice_id, member (H alice_id) ''Alice'' 1000000)] 1000000)],
      conns = (\<lambda>h. newSocket)(0 := conn ''s0'' alice_id 3 [SessionCreated room alice_id])\<rparr>"

text \<open>
  Or, instead, Bob has joined the room on connection 1: he is stored and has got the
  snapshot, and then the error that reports the throw of the broadcast.
\<close>

definition two_users :: "(string \<Rightarrow> string) \<Rightarrow> (string \<times> user_internal) list" where
  "two_users H =
     [(alice_id, member (H alice_id) ''Alice'' 1000000), (bob_id, member (H bob_id) ''Bob'' 1010000)]"

definition state_two :: "(string \<Rightarrow> string) \<Rightarrow> broker" where
  "state_two H =
     \<lparr>sessions = [(room, room_session (two_users H) 1000000)],
      conns = (\<lambda>h. newSocket)
                (0 := conn ''s0'' alice_id 1 [SessionCreated room alice_id],
                 1 := conn ''s1'' bob_id 1
                        [SessionJoined room bob_id (formatSession (room_session (two_users H) 1000000)),
                         ErrorMsg ''Failed to process session_join''])\<rparr>"

text \<open>
  After Bob has joined, Alice joins again on connection 2 with the client id she already
  used: the branch for an existing user throws, and connection 2 gets the error. Nothing
  in the store changes.
\<close>

definition state_three :: "(string \<Rightarrow> string) \<Rightarrow> broker" where
  "state_three H =
     \<lparr>sessions = [(room, room_session (two_users H) 1000000)],
      conns = (\<lambda>h. newSocket)
                (0 := conn ''s0'' alice_id 1 [SessionCreated room alice_id],
                 1 := conn ''s1'' bob_id 1
                        [SessionJoined room bob_id (formatSession (room_session (two_users H) 1000000)),
                         ErrorMsg ''Failed to process session_join''],
                 2 := conn ''s2'' alice_id 1 [ErrorMsg ''Failed to process session_join''])\<rparr>"

text \<open>Then Bob asks for the user list on connection 1.\<close>

definition state_listed :: "(string \<Rightarrow> string) \<Rightarrow> broker" where
  "state_listed H =
     \<lparr>sessions = [(room, room_session (two_users H) 1030000)],
      conns = (\<lambda>h. newSocket)
                (0 := conn ''s0'' alice_id 1 [SessionCreated room alice_id],
                 2 := conn ''s2'' alice_id 1 [ErrorMsg ''Failed to process session_join''],
                 1 := conn ''s1'' bob_id 1
                        [SessionJoined room bob_id (formatSession (room_session (two_users H) 1000000)),
                         ErrorMsg ''Failed to process session_join'',
                         UsersConnected room (formatUserList (two_users H))])\<rparr>"

subsection \<open>Runs of the broker\<close>

text \<open>
  What happens to the session manager, one event at a time: a message arrives on a
  connection (with the clock, the socket id and the UUID that the handler would draw), a
  connection closes, the cleanup ticker fires (with the configured interval and the
  clock), or the transport changes the \<open>readyState\<close> of a connection. \<open>run\<close> plays a list of
  events; it is \<open>None\<close> when a handler does not return. A throw that nothing catches (in
  \<open>removeClient\<close> or in the cleanup ticker) ends the event it happens in and leaves the
  state as it is at that point. The process then starts to shut down; \<open>run\<close> lets events
  follow all the same, so it covers every state the server can be in and more.
\<close>

datatype event =
    Message int string string nat incoming
  | Close int nat
  | Tick int int
  | Transport nat nat

fun run :: "(string \<Rightarrow> string) \<Rightarrow> event list \<Rightarrow> broker \<Rightarrow> broker option" where
  "run H [] b = Some b"
| "run H (Message now sid uuid h m # evs) b =
     (case handleMessage H now sid uuid h m b of None \<Rightarrow> None | Some b1 \<Rightarrow> run H evs b1)"
| "run H (Close now h # evs) b = run H evs (stateOf (handleWebSocketClose now h b))"
| "run H (Tick cleanupInterval now # evs) b = run H evs (stateOf (cleanupTick cleanupInterval now b))"
| "run H (Transport h r # evs) b =
     run H evs (b\<lparr>conns := (conns b)(h := (conns b h)\<lparr>readyState := r\<rparr>)\<rparr>)"

text \<open>
  The UUID drawn for a client id in a run is a string that \<open>generateUUID\<close> can return.
  (Nothing below depends on the shape of the socket ids.)
\<close>

fun drawsUUIDs :: "event \<Rightarrow> bool" where
  "drawsUUIDs (Message now sid uuid h m) = isGeneratedUUID uuid"
| "drawsUUIDs (Close now h) = True"
| "drawsUUIDs (Tick cleanupInterval now) = True"
| "drawsUUIDs (Transport h r) = True"

text \<open>The user objects an outbound message carries.\<close>

fun userObjects :: "outgoing \<Rightarrow> user list" where
  "userObjects (SessionJoined sid cid s) = map snd (xUsers s)"
| "userObjects (UserConnected sid u) = [u]"
| "userObjects (UserDisconnected sid u) = [u]"
| "userObjects (UserUpdated sid u) = [u]"
| "userObjects (UsersConnected sid us) = map snd us"
| "userObjects (SessionCreated sid cid) = []"
| "userObjects (SessionUpdated sid su) = []"
| "userObjects (TimerUpdated sid t) = []"
| "userObjects Pong = []"
| "userObjects (ErrorMsg m) = []"

text \<open>
  The invariant behind the hashed client ids. Every stored user is keyed by a client id
  of the UUID shape, carries the hash of that key as its \<open>clientId\<close>, and has no \<open>sockets\<close>;
  every user object in a frame that was sent carries the hash of such a client id.
\<close>

definition hashedUsers :: "(string \<Rightarrow> string) \<Rightarrow> (string \<times> user_internal) list \<Rightarrow> bool" where
  "hashedUsers H us =
     (\<forall>(k, u) \<in> set us. CLIENT_ID_REGEX k \<and> clientId u = H k \<and> sockets u = None)"

definition hashedMessage :: "(string \<Rightarrow> string) \<Rightarrow> outgoing \<Rightarrow> bool" where
  "hashedMessage H m = (\<forall>u \<in> set (userObjects m). \<exists>k. CLIENT_ID_REGEX k \<and> clientId u = H k)"

definition hashedStore :: "(string \<Rightarrow> string) \<Rightarrow> broker \<Rightarrow> bool" where
  "hashedStore H b = (\<forall>(key, s) \<in> set (sessions b). hashedUsers H (users s))"

definition hashedOutboxes :: "(string \<Rightarrow> string) \<Rightarrow> broker \<Rightarrow> bool" where
  "hashedOutboxes H b = (\<forall>h. \<forall>m \<in> set (outbox (conns b h)). hashedMessage H m)"

definition hashedBroker :: "(string \<Rightarrow> string) \<Rightarrow> broker \<Rightarrow> bool" where
  "hashedBroker H b = (hashedStore H b \<and> hashedOutboxes H b)"

text \<open>
  A stand-in for SHA-256 in the sample runs: like it, a function from strings to strings
  of 64 hexadecimal digits.
\<close>

definition sample_hash :: "string \<Rightarrow> string" where
  "sample_hash x = take 64 (filter isHexDigit x @ replicate 64 (CHR ''0''))"

text \<open>
  Two runs of the broker. In both, Alice creates the room on connection 0 and Bob joins
  on connection 1. Then, in the first, Alice sends a \<open>session_update\<close> whose \<open>items\<close> is not
  an array; in the second, Alice joins again from a second tab (connection 2) and Bob
  asks for the user list.
\<close>

definition bad_update_events :: "event list" where
  "bad_update_events =
     [Message 1000000 ''s0'' fresh_id 0 (joinMsg alice),
      Message 1010000 ''s1'' fresh_id 1 (joinMsg bob),
      Message 1030000 ''s3'' fresh_id 0 bad_update]"

definition reconnect_events :: "event list" where
  "reconnect_events =
     [Message 1000000 ''s0'' fresh_id 0 (joinMsg alice),
      Message 1010000 ''s1'' fresh_id 1 (joinMsg bob),
      Message 1020000 ''s2'' fresh_id 2 (joinMsg alice),
      Message 1030000 ''s4'' fresh_id 1 UserList]"

section \<open>Properties of the timer core\<close>

subsection \<open>Termination and shape of the sync loop\<close>

text \<open>
  With positive durations every pass of the loop consumes at least one millisecond of the
  elapsed time, so the loop returns; a settled exit leaves less than one interval of time
  inside the interval reached.
\<close>

lemma sync_loop_returns:
  assumes pos: "\<forall>i\<in>set ivs. 0 < duration i" and cur: "current < length ivs"
  shows "\<exists>r. sync_loop ivs rep current rem = Some r \<and>
            (case r of Settled c e \<Rightarrow> c < length ivs \<and> e < duration (ivs ! c) * 1000
                                      \<and> (e = rem \<or> 0 \<le> e)
                     | Expired \<Rightarrow> \<not> rep)"
  using cur
proof (induction "nat rem" arbitrary: rem current rule: less_induct)
  case less
  have d: "0 < duration (ivs ! current)" using pos less.prems by simp
  show ?case
  proof (cases "rem > 0")
    case False
    then show ?thesis using d less.prems by (subst sync_loop.simps) simp
  next
    case True
    note rpos = this
    show ?thesis
    proof (cases "rem < duration (ivs ! current) * 1000")
      case True
      then show ?thesis using rpos less.prems by (subst sync_loop.simps) simp
    next
      case False
      define rem1 where "rem1 = rem - duration (ivs ! current) * 1000"
      define c2 where "c2 = (if current + 1 \<ge> length ivs \<and> rep then 0 else current + 1)"
      have r1: "0 \<le> rem1" "nat rem1 < nat rem" using False d rpos by (auto simp: rem1_def)
      have unf: "sync_loop ivs rep current rem =
                 (if c2 \<ge> length ivs \<and> \<not> rep then Some Expired
                  else sync_loop ivs rep c2 rem1)"
        using rpos False by (subst sync_loop.simps) (simp add: Let_def rem1_def c2_def)
      show ?thesis
      proof (cases "c2 \<ge> length ivs \<and> \<not> rep")
        case True
        then show ?thesis using unf by simp
      next
        case False
        then have c2l: "c2 < length ivs"
          using less.prems by (auto simp: c2_def split: if_splits)
        from less.hyps[OF r1(2) c2l] obtain r where
          r: "sync_loop ivs rep c2 rem1 = Some r"
             "(case r of Settled c e \<Rightarrow> c < length ivs \<and> e < duration (ivs ! c) * 1000
                                      \<and> (e = rem1 \<or> 0 \<le> e)
                     | Expired \<Rightarrow> \<not> rep)" by blast
        then show ?thesis using unf False r1(1) by (auto split: loop_exit.splits)
      qed
    qed
  qed
qed

lemma sync_loop_expires:
  assumes pos: "\<forall>i\<in>set ivs. 0 < duration i"
  shows "current < length ivs \<Longrightarrow> totalMs ivs current \<le> rem \<Longrightarrow>
         sync_loop ivs False current rem = Some Expired"
proof (induction "length ivs - current" arbitrary: current rem rule: less_induct)
  case less
  have d: "0 < duration (ivs ! current)" using pos less.prems by simp
  have dr: "drop current ivs = ivs ! current # drop (Suc current) ivs"
    using less.prems(1) by (simp add: Cons_nth_drop_Suc)
  have tot: "totalMs ivs current
             = duration (ivs ! current) * 1000 + totalMs ivs (Suc current)"
    by (simp add: totalMs_def dr)
  have nonneg: "0 \<le> totalMs ivs (Suc current)"
    unfolding totalMs_def using pos
    by (intro sum_list_nonneg) (auto dest!: in_set_dropD simp: less_imp_le)
  have rpos: "rem > 0" and nlt: "\<not> rem < duration (ivs ! current) * 1000"
    using tot nonneg d less.prems(2) by auto
  show ?case
  proof (cases "Suc current \<ge> length ivs")
    case True
    then show ?thesis using rpos nlt by (subst sync_loop.simps) (simp add: Let_def)
  next
    case False
    then have "sync_loop ivs False (Suc current) (rem - duration (ivs ! current) * 1000)
               = Some Expired"
      using less.prems tot by (intro less.hyps) auto
    then show ?thesis using rpos nlt False by (subst sync_loop.simps) (simp add: Let_def)
  qed
qed

text \<open>The three ways \<open>sync()\<close> returns when all durations are positive.\<close>

lemma sync_cases:
  assumes pos: "\<forall>i\<in>set (intervals tc). 0 < duration i"
  shows "sync now tc = Some tc
           \<and> (\<not> isRunning (state tc) \<or> startedAt (state tc) = 0 \<or> intervals tc = [])
       \<or> (isRunning (state tc) \<and> startedAt (state tc) \<noteq> 0 \<and> intervals tc \<noteq> [] \<and>
           ((\<not> repeat (state tc) \<and> sync now tc = Some (stop tc)) \<or>
           (\<exists>c e. c < length (intervals tc) \<and> e < duration (intervals tc ! c) * 1000 \<and>
                  sync_loop (intervals tc) (repeat (state tc))
                     (startIndex (intervals tc) (state tc))
                     (elapsedAt now (state tc)) = Some (Settled c e) \<and>
                  sync now tc = Some (tc\<lparr>state := (state tc)\<lparr>interval := c,
                        remaining := duration (intervals tc ! c) * 1000 - e\<rparr>\<rparr>))))"
proof (cases "\<not> isRunning (state tc) \<or> startedAt (state tc) = 0 \<or> intervals tc = []")
  case True
  then show ?thesis by (auto simp: sync_def Let_def)
next
  case False
  then have ne: "intervals tc \<noteq> []" and run: "isRunning (state tc)"
    and st: "startedAt (state tc) \<noteq> 0"
    by auto
  have si: "startIndex (intervals tc) (state tc) < length (intervals tc)"
    using ne by (simp add: startIndex_def)
  from sync_loop_returns[OF pos si, of "repeat (state tc)" "elapsedAt now (state tc)"]
  obtain r where r: "sync_loop (intervals tc) (repeat (state tc))
                       (startIndex (intervals tc) (state tc)) (elapsedAt now (state tc)) = Some r"
     and rp: "(case r of Settled c e \<Rightarrow> c < length (intervals tc)
                                      \<and> e < duration (intervals tc ! c) * 1000
                                      \<and> (e = elapsedAt now (state tc) \<or> 0 \<le> e)
                     | Expired \<Rightarrow> \<not> repeat (state tc))" by blast
  show ?thesis
  proof (cases r)
    case Expired
    then have "sync now tc = Some (stop tc)"
      using r ne run st by (simp add: sync_def Let_def stop_def durationMs_def)
    then show ?thesis using rp Expired run st ne by simp
  next
    case (Settled c e)
    then have "sync now tc = Some (tc\<lparr>state := (state tc)\<lparr>interval := c,
                        remaining := duration (intervals tc ! c) * 1000 - e\<rparr>\<rparr>)"
      using r ne run st by (simp add: sync_def Let_def)
    then show ?thesis using rp Settled run st ne r by auto
  qed
qed

lemma sync_preserves_invariant:
  assumes "timer_invariant (state tc)" "sync now tc = Some tc'"
  shows "timer_invariant (state tc')"
proof (cases "\<not> isRunning (state tc) \<or> startedAt (state tc) = 0 \<or> length (intervals tc) = 0")
  case True
  then have "tc' = tc" using assms(2) by (auto simp: sync_def Let_def split: if_splits)
  then show ?thesis using assms(1) by simp
next
  case False
  then show ?thesis
    using assms
    by (auto simp: sync_def Let_def timer_invariant_def split: option.splits loop_exit.splits)
qed


subsection \<open>stop()\<close>

text \<open>
  Claim C9. For every non-empty interval list and every starting timer state, \<open>stop()\<close>
  leaves \<open>interval = 0\<close>, \<open>remaining = ivs[0].duration * 1000\<close>, \<open>isRunning\<close> and
  \<open>isPaused\<close> false, \<open>startedAt\<close>, \<open>startedInterval\<close>, \<open>pausedAt\<close> and \<open>timePaused\<close> zero,
  and the \<open>repeat\<close> flag as it was before the call. The interval list is untouched.
\<close>

theorem stop_resets_timer:
  assumes "intervals tc \<noteq> []"
  shows "interval (state (stop tc)) = 0
       \<and> remaining (state (stop tc)) = duration (hd (intervals tc)) * 1000
       \<and> \<not> isRunning (state (stop tc))
       \<and> \<not> isPaused (state (stop tc))
       \<and> startedAt (state (stop tc)) = 0
       \<and> startedInterval (state (stop tc)) = 0
       \<and> pausedAt (state (stop tc)) = 0
       \<and> timePaused (state (stop tc)) = 0
       \<and> repeat (state (stop tc)) = repeat (state tc)
       \<and> intervals (stop tc) = intervals tc"
  using assms by (cases "intervals tc") (simp_all add: stop_def durationMs_def)

theorem stop_resets_timer_witness:
  "interval (state (stop (start 1000000 (repeat_op (Some True) (newTimerCore sample_items))))) = 0
   \<and> remaining (state (stop (start 1000000 (repeat_op (Some True) (newTimerCore sample_items)))))
       = 25000
   \<and> \<not> isRunning (state (stop (start 1000000 (repeat_op (Some True) (newTimerCore sample_items)))))
   \<and> repeat (state (stop (start 1000000 (repeat_op (Some True) (newTimerCore sample_items)))))"
proof -
  have ne: "intervals (start 1000000 (repeat_op (Some True) (newTimerCore sample_items))) \<noteq> []"
    by (simp add: start_def repeat_op_def newTimerCore_def sample_items_def Let_def)
  from stop_resets_timer [OF ne] show ?thesis
    by (simp add: start_def repeat_op_def newTimerCore_def sample_items_def Let_def)
qed

subsection \<open>The timer-state invariant\<close>

text \<open>
  Claim C4, as stated: every TimerCore operation preserves the invariant
  \<open>\<not> isRunning \<longrightarrow> startedAt = 0 \<and> pausedAt = 0 \<and> timePaused = 0 \<and> \<not> isPaused\<close>.
  It fails for \<open>pause()\<close>: a freshly constructed (stopped) timer satisfies the invariant,
  and \<open>pause()\<close> on it sets \<open>isPaused\<close> and stamps \<open>pausedAt = now\<close> while \<open>isRunning\<close> stays
  false.
\<close>

theorem pause_breaks_invariant:
  "timer_invariant (state (newTimerCore sample_items))
   \<and> \<not> timer_invariant (state (pause 1000000 (newTimerCore sample_items)))"
  by (simp add: timer_invariant_def pause_def newTimerCore_def)

text \<open>
  Claim C4, amended: \<open>start\<close>, \<open>stop\<close>, \<open>repeat\<close>, \<open>next\<close>, \<open>resume\<close>, \<open>updateIntervals\<close> and
  \<open>sync\<close> preserve the invariant (and \<open>sync\<close> returns whenever all durations are positive);
  \<open>pause\<close> preserves it on a running timer; \<open>updateState\<close> establishes it whenever the
  imported state is not paused while stopped.
\<close>

theorem timer_invariant_preserved:
  assumes inv: "timer_invariant (state tc)"
  shows "timer_invariant (state (start now tc))
       \<and> timer_invariant (state (stop tc))
       \<and> timer_invariant (state (repeat_op arg tc))
       \<and> timer_invariant (state (next_op now tc))
       \<and> timer_invariant (state (resume now tc))
       \<and> timer_invariant (state (updateIntervals now ivs tc))
       \<and> (\<forall>tc'. sync now tc = Some tc' \<longrightarrow> timer_invariant (state tc'))
       \<and> ((\<forall>i\<in>set (intervals tc). 0 < duration i) \<longrightarrow> (\<exists>tc'. sync now tc = Some tc'))
       \<and> (isRunning (state tc) \<longrightarrow> timer_invariant (state (pause now tc)))
       \<and> ((isPaused ext \<longrightarrow> isRunning ext)
            \<longrightarrow> timer_invariant (state (updateState now ext tc)))"
proof -
  have 1: "timer_invariant (state (start now tc))"
    by (simp add: start_def resume_def Let_def timer_invariant_def)
  have 2: "timer_invariant (state (stop tc))"
    by (simp add: stop_def timer_invariant_def)
  have 3: "timer_invariant (state (repeat_op arg tc))"
    using inv by (simp add: repeat_op_def timer_invariant_def)
  have 4: "timer_invariant (state (next_op now tc))"
    using inv by (simp add: next_op_def Let_def timer_invariant_def)
  have 5: "timer_invariant (state (resume now tc))"
    using inv by (auto simp: resume_def Let_def timer_invariant_def)
  have 6: "timer_invariant (state (updateIntervals now ivs tc))"
    using inv by (auto simp: updateIntervals_def Let_def timer_invariant_def)
  have 7: "\<forall>tc'. sync now tc = Some tc' \<longrightarrow> timer_invariant (state tc')"
    using inv sync_preserves_invariant by blast
  have 8: "(\<forall>i\<in>set (intervals tc). 0 < duration i) \<longrightarrow> (\<exists>tc'. sync now tc = Some tc')"
    using sync_cases[of tc now] by blast
  have 9: "isRunning (state tc) \<longrightarrow> timer_invariant (state (pause now tc))"
    by (simp add: pause_def timer_invariant_def)
  have 10: "(isPaused ext \<longrightarrow> isRunning ext)
             \<longrightarrow> timer_invariant (state (updateState now ext tc))"
    by (auto simp: updateState_def Let_def timer_invariant_def)
  show ?thesis using 1 2 3 4 5 6 7 8 9 10 by blast
qed

theorem timer_invariant_preserved_witness:
  "timer_invariant (state (start 1000000 (newTimerCore sample_items)))
   \<and> timer_invariant (state (stop (newTimerCore sample_items)))
   \<and> timer_invariant (state (next_op 1000000 (newTimerCore sample_items)))
   \<and> timer_invariant (state (updateIntervals 1000000 [] (newTimerCore sample_items)))
   \<and> (\<exists>tc'. sync 1000000 (newTimerCore sample_items) = Some tc')"
proof -
  have inv: "timer_invariant (state (newTimerCore sample_items))"
    by (simp add: timer_invariant_def newTimerCore_def)
  have pos: "\<forall>i\<in>set (intervals (newTimerCore sample_items)). 0 < duration i"
    by (simp add: newTimerCore_def sample_items_def)
  from timer_invariant_preserved [OF inv, where now = 1000000 and ivs = "[]"] pos
  show ?thesis by blast
qed

subsection \<open>sync() never reports a negative remaining time\<close>

text \<open>
  Claim C6, as stated: for every timer state and interval list \<open>sync()\<close> never returns a
  state with \<open>remaining < 0\<close>, and a running timer with \<open>repeat\<close> false whose elapsed time is
  past the end of the last interval is stopped. It fails in three ways.
  \<^item> \<open>start()\<close> right after \<open>pause()\<close> on a new timer takes the resume branch, which sets no
    baseline: the timer runs with \<open>startedAt = 0\<close>, and \<open>sync()\<close> returns a timer without a
    baseline unchanged. At 2000000 the elapsed time it would compute, 1999000 ms, is far
    past the 45000 ms of the sample list, and the timer is returned still running.
  \<^item> \<open>sync()\<close> returns a timer that is not running unchanged, also when its \<open>remaining\<close> is
    negative (here -5, put there by \<open>updateState()\<close>).
  \<^item> With a single interval of -5 s, \<open>sync()\<close> one second after \<open>start()\<close> stops the timer
    with \<open>remaining = -5000\<close>.
\<close>

theorem sync_claim_counterexample:
  "isRunning (state (start 1001000 (pause 1000000 (newTimerCore sample_items))))
   \<and> \<not> repeat (state (start 1001000 (pause 1000000 (newTimerCore sample_items))))
   \<and> elapsedAt 2000000 (state (start 1001000 (pause 1000000 (newTimerCore sample_items))))
       = 1999000
   \<and> totalMs sample_items 0 = 45000
   \<and> sync 2000000 (start 1001000 (pause 1000000 (newTimerCore sample_items)))
       = Some (start 1001000 (pause 1000000 (newTimerCore sample_items)))
   \<and> sync 1000000 (updateState 1000000
                       \<lparr>repeat = False, interval = 0, remaining = - 5, isRunning = False,
                        isPaused = False\<rparr> (newTimerCore sample_items))
       = Some (updateState 1000000
                 \<lparr>repeat = False, interval = 0, remaining = - 5, isRunning = False,
                  isPaused = False\<rparr> (newTimerCore sample_items))
   \<and> remaining (state (updateState 1000000
                          \<lparr>repeat = False, interval = 0, remaining = - 5, isRunning = False,
                           isPaused = False\<rparr> (newTimerCore sample_items))) = - 5
   \<and> map_option (\<lambda>tc. (isRunning (state tc), remaining (state tc)))
        (sync 1001000
           (start 1000000
              (newTimerCore [\<lparr>iname = ''Work'', duration = - 5, alert = ''Default'',
                              customCSS = []\<rparr>])))
       = Some (False, - 5000)"
proof -
  have loop: "sync_loop [\<lparr>iname = ''Work'', duration = - 5, alert = ''Default'', customCSS = []\<rparr>]
                False 0 1000 = Some Expired"
    by (subst sync_loop.simps) (simp add: Let_def)
  show ?thesis
    by (simp add: sync_def start_def pause_def resume_def updateState_def newTimerCore_def
          elapsedAt_def startIndex_def totalMs_def durationMs_def sample_items_def Let_def loop)
qed

text \<open>
  Claim C6, amended. For every timer state and every interval list whose durations are all
  positive, \<open>sync()\<close> returns, and the state it returns is either the state it was given,
  unchanged, or one whose \<open>remaining\<close> is strictly positive; so a \<open>remaining\<close> that was not
  negative before the call is not negative after it. When the timer is running with a
  baseline (\<open>startedAt\<close> not 0) and \<open>repeat\<close> false, the list is not empty and the elapsed time
  reaches the end of the last interval, the result is exactly the state \<open>stop()\<close> produces.
\<close>

theorem sync_never_negative:
  assumes pos: "\<forall>i\<in>set (intervals tc). 0 < duration i"
  shows "\<exists>tc'. sync now tc = Some tc'
          \<and> (tc' = tc \<or> 0 < remaining (state tc'))
          \<and> (0 \<le> remaining (state tc) \<longrightarrow> 0 \<le> remaining (state tc'))
          \<and> (isRunning (state tc) \<and> startedAt (state tc) \<noteq> 0 \<and> intervals tc \<noteq> []
               \<and> \<not> repeat (state tc)
               \<and> totalMs (intervals tc) (startIndex (intervals tc) (state tc))
                    \<le> elapsedAt now (state tc)
             \<longrightarrow> tc' = stop tc)"
proof -
  have exp: "sync now tc = Some (stop tc)"
    if "isRunning (state tc)" "startedAt (state tc) \<noteq> 0" "intervals tc \<noteq> []"
       "\<not> repeat (state tc)"
       "totalMs (intervals tc) (startIndex (intervals tc) (state tc)) \<le> elapsedAt now (state tc)"
  proof -
    have si: "startIndex (intervals tc) (state tc) < length (intervals tc)"
      using that(3) by (simp add: startIndex_def)
    from sync_loop_expires[OF pos si that(5)] show ?thesis
      using that by (simp add: sync_def Let_def stop_def durationMs_def)
  qed
  have h0: "0 < remaining (state (stop tc))" if "intervals tc \<noteq> []"
    using that pos by (cases "intervals tc") (auto simp: stop_def durationMs_def)
  from sync_cases[OF pos, of now]
  consider (same) "sync now tc = Some tc"
    | (stopped) "intervals tc \<noteq> []" "sync now tc = Some (stop tc)"
    | (settled) c e where "c < length (intervals tc)" "e < duration (intervals tc ! c) * 1000"
        "sync now tc = Some (tc\<lparr>state := (state tc)\<lparr>interval := c,
                        remaining := duration (intervals tc ! c) * 1000 - e\<rparr>\<rparr>)"
    by blast
  then show ?thesis
  proof cases
    case same
    then show ?thesis using exp by auto
  next
    case stopped
    then show ?thesis using h0 by auto
  next
    case settled
    then show ?thesis using exp by auto
  qed
qed

theorem sync_never_negative_witness:
  "sync 1045000 (start 1000000 (newTimerCore sample_items))
     = Some (stop (start 1000000 (newTimerCore sample_items)))
   \<and> remaining (state (stop (start 1000000 (newTimerCore sample_items)))) = 25000"
proof -
  have pos: "\<forall>i\<in>set (intervals (start 1000000 (newTimerCore sample_items))). 0 < duration i"
    by (simp add: start_def newTimerCore_def sample_items_def Let_def)
  from sync_never_negative[OF pos, of 1045000] show ?thesis
    by (simp add: start_def newTimerCore_def sample_items_def Let_def stop_def durationMs_def
        totalMs_def startIndex_def elapsedAt_def)
qed

subsection \<open>A pause span is excluded from the elapsed time\<close>

text \<open>
  Claim C7. For a running (not paused) timer on a fixed non-empty interval list,
  \<open>pause()\<close> at time \<open>t\<close>, \<open>resume()\<close> at \<open>t + d\<close> and then \<open>sync()\<close> at a time \<open>u\<close> give the
  same interval and remaining time as \<open>sync()\<close> on the untouched timer at \<open>u - d\<close>: the span
  \<open>d\<close> does not count as elapsed. Both calls of \<open>sync()\<close> return.
\<close>

theorem pause_resume_excluded:
  assumes pos: "\<forall>i\<in>set (intervals tc). 0 < duration i"
      and ne: "intervals tc \<noteq> []"
      and run: "isRunning (state tc)" "\<not> isPaused (state tc)"
  shows "\<exists>a b. sync u (resume (t + d) (pause t tc)) = Some a
             \<and> sync (u - d) tc = Some b
             \<and> interval (state a) = interval (state b)
             \<and> remaining (state a) = remaining (state b)
             \<and> isRunning (state a) = isRunning (state b)
             \<and> isPaused (state a) = isPaused (state b)"
proof -
  let ?tc' = "resume (t + d) (pause t tc)"
  have st': "state ?tc' = (state tc)\<lparr>isPaused := False,
                 timePaused := timePaused (state tc) + d, pausedAt := 0\<rparr>"
    using run by (simp add: resume_def pause_def Let_def)
  have iv': "intervals ?tc' = intervals tc"
    by (simp add: resume_def pause_def Let_def)
  have el: "elapsedAt u (state ?tc') = elapsedAt (u - d) (state tc)"
    using run by (simp add: st' elapsedAt_def)
  have si: "startIndex (intervals tc) (state ?tc') = startIndex (intervals tc) (state tc)"
    by (simp add: st' startIndex_def)
  have rp: "repeat (state ?tc') = repeat (state tc)"
    by (simp add: st')
  have sit: "startIndex (intervals tc) (state tc) < length (intervals tc)"
    using ne by (simp add: startIndex_def)
  from sync_loop_returns[OF pos sit, of "repeat (state tc)" "elapsedAt (u - d) (state tc)"]
  obtain r where r: "sync_loop (intervals tc) (repeat (state tc))
                       (startIndex (intervals tc) (state tc)) (elapsedAt (u - d) (state tc))
                     = Some r"
    by blast
  have r': "sync_loop (intervals ?tc') (repeat (state ?tc'))
                       (startIndex (intervals ?tc') (state ?tc')) (elapsedAt u (state ?tc'))
            = Some r"
    using r by (simp only: si el iv' rp)
  show ?thesis
  proof (cases "startedAt (state tc) = 0")
    case True
    then show ?thesis using run by (simp add: sync_def Let_def st')
  next
    case False
    then show ?thesis
      using run ne r r' unfolding sync_def Let_def
      by (cases r) (simp_all add: st' iv')
  qed
qed

theorem pause_resume_excluded_witness:
  "\<exists>a b. sync 1023000 (resume 1008000 (pause 1005000 (start 1000000 (newTimerCore sample_items))))
            = Some a
       \<and> sync 1020000 (start 1000000 (newTimerCore sample_items)) = Some b
       \<and> interval (state a) = interval (state b)
       \<and> remaining (state a) = remaining (state b)"
proof -
  let ?tc = "start 1000000 (newTimerCore sample_items)"
  have pos: "\<forall>i\<in>set (intervals ?tc). 0 < duration i"
    by (simp add: start_def newTimerCore_def sample_items_def Let_def)
  have ne: "intervals ?tc \<noteq> []"
    by (simp add: start_def newTimerCore_def sample_items_def Let_def)
  have run: "isRunning (state ?tc)" "\<not> isPaused (state ?tc)"
    by (simp_all add: start_def newTimerCore_def Let_def)
  from pause_resume_excluded [OF pos ne run, of 1023000 1005000 3000]
  show ?thesis by auto
qed

subsection \<open>updateState() followed by sync()\<close>




section \<open>Properties of the message codec\<close>

subsection \<open>Trimming\<close>

lemma trim_noop: "trimmed s \<Longrightarrow> trim s = s"
proof (cases s rule: rev_cases)
  case Nil
  then show ?thesis by (simp add: trim_def)
next
  case (snoc ys y)
  assume "trimmed s"
  then have h: "\<not> isWhitespace (hd s)" and l: "\<not> isWhitespace y"
    using snoc by (auto simp: trimmed_def)
  have 1: "dropWhile isWhitespace s = s" using h by (cases s) auto
  have 2: "dropWhile isWhitespace (rev s) = rev s" using l snoc by simp
  show ?thesis by (simp add: trim_def 1 2)
qed

lemma last_dropWhile_keep:
  "dropWhile P xs \<noteq> [] \<Longrightarrow> last (dropWhile P xs) = last xs"
  by (induction xs) (auto split: if_splits)

lemma trimmed_trim: "trimmed (trim s)"
proof -
  define u where "u = dropWhile isWhitespace s"
  define v where "v = dropWhile isWhitespace (rev u)"
  have t: "trim s = rev v" by (simp add: trim_def u_def v_def)
  show ?thesis
  proof (cases "v = []")
    case True
    then show ?thesis by (simp add: t trimmed_def)
  next
    case False
    then have hv: "\<not> isWhitespace (hd v)" unfolding v_def by (rule hd_dropWhile)
    have une: "u \<noteq> []" using False by (auto simp: v_def)
    have "last v = last (rev u)" using False unfolding v_def by (rule last_dropWhile_keep)
    also have "\<dots> = hd u" using une by (simp add: last_rev)
    finally have lv: "last v = hd u" .
    have "\<not> isWhitespace (hd u)" using une unfolding u_def by (rule hd_dropWhile)
    then have "\<not> isWhitespace (hd (rev v))" using False lv by (simp add: hd_rev)
    moreover have "\<not> isWhitespace (last (rev v))" using False hv by (simp add: last_rev)
    ultimately show ?thesis by (simp add: t trimmed_def)
  qed
qed

lemma trimmed_take:
  assumes "trimmed t" "length t \<le> n \<or> \<not> isWhitespace (t ! (n - 1))"
  shows "trimmed (take n t)"
proof (cases "length t \<le> n")
  case True
  then show ?thesis using assms(1) by simp
next
  case False
  then have long: "n < length t" by simp
  show ?thesis
  proof (cases "n = 0")
    case True
    then show ?thesis by (simp add: trimmed_def)
  next
    case False
    then have ne: "take n t \<noteq> []" using long by auto
    have "hd (take n t) = hd t" using False by (simp add: hd_take)
    moreover have "last (take n t) = t ! (n - 1)"
      using False long ne by (simp add: last_conv_nth min_def)
    moreover have "t \<noteq> []" using long by auto
    ultimately show ?thesis using assms long by (auto simp: trimmed_def)
  qed
qed

lemma trim_take_stable:
  assumes "fitsAfterTrim n s"
  shows "take n (trim (take n (trim s))) = take n (trim s)"
proof -
  have "trimmed (take n (trim s))"
    using assms trimmed_trim[of s] by (intro trimmed_take) (auto simp: fitsAfterTrim_def)
  then have "trim (take n (trim s)) = take n (trim s)" by (rule trim_noop)
  then show ?thesis by simp
qed

lemma length_trim_le: "length (trim s) \<le> length s"
proof -
  have "length (dropWhile isWhitespace (rev (dropWhile isWhitespace s)))
        \<le> length (rev (dropWhile isWhitespace s))"
    by (rule length_dropWhile_le)
  also have "\<dots> \<le> length s" by (simp add: length_dropWhile_le)
  finally show ?thesis by (simp add: trim_def)
qed

lemma fitsAfterTrim_short: "length s \<le> n \<Longrightarrow> fitsAfterTrim n s"
  using length_trim_le[of s] by (simp add: fitsAfterTrim_def)

lemma take_trim_short: "length s \<le> n \<Longrightarrow> take n (trim s) = trim s"
  using length_trim_le[of s] by simp

lemma trim_trim: "trim (trim s) = trim s"
  using trimmed_trim trim_noop by blast

lemma sessionChar_not_ws: "isSessionIdChar c \<Longrightarrow> \<not> isWhitespace c"
  by (auto simp: isSessionIdChar_def isWhitespace_def Let_def)

lemma formatSessionId_idem: "formatSessionId (formatSessionId s) = formatSessionId s"
proof (cases "SESSION_ID_REGEX (trim s)")
  case True
  have "trim (trim s) = trim s" by (rule trim_trim)
  then show ?thesis using True by (simp add: formatSessionId_def Let_def)
next
  case False
  then have 1: "formatSessionId s = []" by (simp add: formatSessionId_def)
  have 2: "formatSessionId [] = []"
    by (simp add: formatSessionId_def trim_def SESSION_ID_REGEX_def)
  show ?thesis by (simp only: 1 2)
qed

lemma formatUser_idem:
  "stableUser u \<Longrightarrow> formatUser (Plain (formatUser u)) = formatUser u"
  by (cases u) (simp_all add: formatUser_def stableUser_def plainOf_def user.truncate_def
        trim_take_stable)

lemma default_alert: "take MAX_NAME_LENGTH (trim ''Default'') = ''Default''"
  by code_simp

lemma formatInterval_idem:
  assumes "stableInterval i"
  shows "formatInterval (formatInterval i) = formatInterval i"
proof -
  let ?x = "formatInterval i"
  have n: "take MAX_NAME_LENGTH (trim (iname ?x)) = iname ?x"
    using assms by (simp add: formatInterval_def stableInterval_def trim_take_stable)
  have d: "max MIN_DURATION (min MAX_DURATION
             (if duration ?x = 0 then DEFAULT_DURATION else duration ?x)) = duration ?x"
    by (simp add: formatInterval_def MIN_DURATION_def MAX_DURATION_def DEFAULT_DURATION_def)
  have a: "(let a = take MAX_NAME_LENGTH (trim (alert ?x)) in if a = [] then ''Default'' else a)
           = alert ?x"
  proof (cases "take MAX_NAME_LENGTH (trim (alert i)) = []")
    case True
    then have "alert ?x = ''Default''" by (simp add: formatInterval_def)
    then show ?thesis by (simp add: default_alert)
  next
    case False
    then have ax: "alert ?x = take MAX_NAME_LENGTH (trim (alert i))"
      by (simp add: formatInterval_def)
    have "take MAX_NAME_LENGTH (trim (take MAX_NAME_LENGTH (trim (alert i))))
          = take MAX_NAME_LENGTH (trim (alert i))"
      using assms by (simp add: stableInterval_def trim_take_stable)
    then show ?thesis using False by (simp add: ax)
  qed
  have c: "trim (customCSS ?x) = customCSS ?x"
    by (simp add: formatInterval_def trim_trim)
  have "formatInterval ?x = \<lparr>iname = iname ?x, duration = duration ?x, alert = alert ?x,
                              customCSS = customCSS ?x\<rparr>"
    by (simp only: formatInterval_def[of ?x] n d a c)
  then show ?thesis by simp
qed

lemma formatIntervalList_idem:
  "list_all stableInterval (itemsOf il) \<Longrightarrow>
   formatIntervalList (formatIntervalList il) = formatIntervalList il"
  by (cases "items il")
     (auto simp: formatIntervalList_def itemsOf_def list_all_iff formatInterval_idem)

lemma formatTimer_idem:
  "0 \<le> remaining t \<Longrightarrow> formatTimer (formatTimer t) = formatTimer t"
  by (auto simp: formatTimer_def MAX_DURATION_def DEFAULT_DURATION_def)

lemma formatSessionUpdate_idem:
  "stableSessionUpdate su \<Longrightarrow> formatSessionUpdate (formatSessionUpdate su) = formatSessionUpdate su"
  by (simp add: formatSessionUpdate_def stableSessionUpdate_def trim_take_stable
        formatIntervalList_idem)

subsection \<open>Idempotence of the inbound sanitization\<close>

text \<open>
  Claim C5, as stated: \<open>formatIncoming(formatIncoming(m)) = formatIncoming(m)\<close> for every
  valid inbound message. It fails in three ways.
  \<^item> A \<open>user_update\<close> whose user name has 49 letters, a space and one more letter: the first
    pass trims (nothing to trim) and cuts after 50 characters, which leaves the space at
    the end; the second pass trims that space away.
  \<^item> A \<open>timer_update\<close> with \<open>remaining = -1\<close>: the first pass clamps it to 0, and the second
    pass takes 0 for a missing value and puts the default, 1500000.
  \<^item> A \<open>user_update\<close> whose user object carries \<open>offlineAt = 5\<close>: the first pass makes it
    \<open>isOnline = false\<close> and drops the key, the second pass makes it \<open>isOnline = true\<close>.
\<close>

theorem formatIncoming_not_idempotent:
  "formatIncoming (UserUpdate (Plain \<lparr>clientId = '''', uname = long_name, avatarUrl = '''', isOnline = True\<rparr>))
     = Inr (UserUpdate (Plain \<lparr>clientId = '''', uname = cut_name, avatarUrl = '''', isOnline = True\<rparr>))
   \<and> formatIncoming (UserUpdate (Plain \<lparr>clientId = '''', uname = cut_name, avatarUrl = '''', isOnline = True\<rparr>))
     = Inr (UserUpdate (Plain \<lparr>clientId = '''', uname = short_name, avatarUrl = '''', isOnline = True\<rparr>))
   \<and> cut_name \<noteq> short_name
   \<and> formatIncoming (TimerUpdate \<lparr>repeat = False, interval = 0, remaining = - 1,
                                    isRunning = False, isPaused = False\<rparr>)
     = Inr (TimerUpdate \<lparr>repeat = False, interval = 0, remaining = 0,
                          isRunning = False, isPaused = False\<rparr>)
   \<and> formatIncoming (TimerUpdate \<lparr>repeat = False, interval = 0, remaining = 0,
                                    isRunning = False, isPaused = False\<rparr>)
     = Inr (TimerUpdate \<lparr>repeat = False, interval = 0, remaining = 1500000,
                          isRunning = False, isPaused = False\<rparr>)
   \<and> formatIncoming (UserUpdate (Internal \<lparr>clientId = '''', uname = ''Ann'', avatarUrl = '''',
                                              isOnline = True, lastPing = 0, offlineAt = 5,
                                              ws = None, sockets = None\<rparr>))
     = Inr (UserUpdate (Plain \<lparr>clientId = '''', uname = ''Ann'', avatarUrl = '''', isOnline = False\<rparr>))
   \<and> formatIncoming (UserUpdate (Plain \<lparr>clientId = '''', uname = ''Ann'', avatarUrl = '''', isOnline = False\<rparr>))
     = Inr (UserUpdate (Plain \<lparr>clientId = '''', uname = ''Ann'', avatarUrl = '''', isOnline = True\<rparr>))"
  by code_simp

text \<open>
  Claim C5, amended: for every inbound message of the six types in which no truncated
  string field is cut right after a white-space character (in particular when every
  trimmed string is within its maximum length), no timer has a negative \<open>remaining\<close> and no
  user object carries a truthy \<open>offlineAt\<close>, \<open>formatIncoming\<close> succeeds and applying it
  again to its result returns that result.
\<close>

theorem formatIncoming_idempotent:
  assumes "stableMessage m"
  shows "\<exists>m'. formatIncoming m = Inr m' \<and> formatIncoming m' = Inr m'"
proof (cases m)
  case (SessionJoin sid su t u)
  then show ?thesis using assms
    by (simp add: formatIncoming_def formatSessionJoinMsg_def formatSessionId_idem
          formatSessionUpdate_idem formatTimer_idem formatUser_idem stableTimer_def)
next
  case (SessionUpdate su t)
  then show ?thesis using assms
    by (cases t) (simp_all add: formatIncoming_def formatSessionUpdateMsg_def
          formatSessionUpdate_idem formatTimer_idem stableTimer_def)
next
  case (TimerUpdate t)
  then show ?thesis using assms
    by (simp add: formatIncoming_def formatTimerUpdateMsg_def formatTimer_idem stableTimer_def)
next
  case (UserUpdate u)
  then show ?thesis using assms
    by (simp add: formatIncoming_def formatUserUpdateMsg_def formatUser_idem)
next
  case UserList
  then show ?thesis by (simp add: formatIncoming_def)
next
  case Ping
  then show ?thesis by (simp add: formatIncoming_def)
next
  case (Unknown ty)
  then show ?thesis using assms by simp
qed

lemma sample_trims:
  "trim ''  Sprint planning '' = ''Sprint planning''"
   "trim ''Focus blocks'' = ''Focus blocks''"
   "trim '' Work'' = ''Work''"
   "trim '' body { } '' = ''body { }''"
   "trim [] = []"
  by (simp_all add: trim_def isWhitespace_def)

theorem formatIncoming_idempotent_witness:
  "formatIncoming sample_update = Inr sample_update_formatted
   \<and> formatIncoming sample_update_formatted = Inr sample_update_formatted"
proof -
  have st: "stableMessage sample_update"
    by (simp add: sample_update_def stableSessionUpdate_def stableInterval_def stableTimer_def
          itemsOf_def fitsAfterTrim_short MAX_STRING_LENGTH_def MAX_NAME_LENGTH_def)
  have f: "formatIncoming sample_update = Inr sample_update_formatted"
    by (simp add: sample_update_def sample_update_formatted_def formatIncoming_def
          formatSessionUpdateMsg_def formatSessionUpdate_def formatIntervalList_def
          formatInterval_def formatTimer_def take_trim_short sample_trims
          MAX_STRING_LENGTH_def MAX_NAME_LENGTH_def MAX_SAFE_INTEGER_def
          MIN_DURATION_def MAX_DURATION_def DEFAULT_DURATION_def)
  from formatIncoming_idempotent [OF st] obtain m' where
    a: "formatIncoming sample_update = Inr m'" and b: "formatIncoming m' = Inr m'" by blast
  from a f have "m' = sample_update_formatted" by simp
  with b f show ?thesis by simp
qed

subsection \<open>formatTimer and a remaining time of zero\<close>

text \<open>
  Claim C10. \<open>formatTimer\<close> maps a \<open>remaining\<close> of 0 to \<open>DEFAULT_DURATION * 1000 = 1500000\<close>
  and a positive \<open>remaining\<close> to itself capped at 86400000, so a timer state with
  \<open>remaining\<close> exactly 0 does not keep it through the codec. The inbound \<open>timer_update\<close>,
  the outbound \<open>timer_updated\<close> and the timer of a session snapshot all go through
  \<open>formatTimer\<close>.
\<close>

theorem formatTimer_zero_remaining:
  "(remaining t = 0 \<longrightarrow> remaining (formatTimer t) = 1500000)
   \<and> (0 < remaining t \<longrightarrow> remaining (formatTimer t) = min (remaining t) 86400000)
   \<and> (remaining t = 0 \<longrightarrow> remaining (formatTimer t) \<noteq> remaining t)
   \<and> formatIncoming (TimerUpdate ts) = Inr (TimerUpdate (formatTimer ts))
   \<and> formatTimerUpdatedMsg s = TimerUpdated (formatSessionId (sessionId s)) (formatTimer (timer s))
   \<and> xTimer (formatSession s) = formatTimer (timer s)"
  by (auto simp: formatTimer_def formatIncoming_def formatTimerUpdateMsg_def
        formatTimerUpdatedMsg_def formatSession_def
        DEFAULT_DURATION_def MAX_DURATION_def)

theorem formatTimer_zero_remaining_witness:
  "remaining (formatTimer ext_zero) = 1500000
   \<and> remaining (formatTimer (ext_zero\<lparr>remaining := 90000000\<rparr>)) = 86400000"
proof -
  have z: "remaining ext_zero = 0" by (simp add: ext_zero_def)
  have p: "0 < remaining (ext_zero\<lparr>remaining := 90000000\<rparr>)" by simp
  from formatTimer_zero_remaining [of ext_zero] z
       formatTimer_zero_remaining [of "ext_zero\<lparr>remaining := 90000000\<rparr>"] p
  show ?thesis by simp
qed

section \<open>Properties of the session manager\<close>

subsection \<open>Evaluating the sample runs\<close>

text \<open>
  The sample data is already in the form the codec produces, so formatting leaves it
  alone; with that, each step of a sample run is computed by rewriting.
\<close>

lemma sample_items_formatted: "map formatInterval sample_items = sample_items"
  by (simp add: sample_items_def formatInterval_def take_trim_short trim_def isWhitespace_def
        MAX_NAME_LENGTH_def MIN_DURATION_def MAX_DURATION_def)

lemma room_ok: "formatSessionId room = room" "room \<noteq> []"
  by (simp_all add: formatSessionId_def room_def trim_def isWhitespace_def SESSION_ID_REGEX_def
        isSessionIdChar_def Let_def)

lemma fmt_join: "u = alice \<or> u = bob \<Longrightarrow> formatIncoming (joinMsg u) = Inr (joinMsg u)"
  by (auto simp: joinMsg_def formatIncoming_def formatSessionJoinMsg_def room_ok
        sample_session_def formatSessionUpdate_def formatIntervalList_def sample_items_formatted
        idle_timer_def formatTimer_def formatUser_def alice_def bob_def
        take_trim_short trim_def isWhitespace_def
        MAX_STRING_LENGTH_def MAX_NAME_LENGTH_def MAX_URL_LENGTH_def MAX_SAFE_INTEGER_def
        MAX_DURATION_def DEFAULT_DURATION_def)

lemma cid_ok: "formatClientId uuid alice_id = alice_id" "formatClientId uuid bob_id = bob_id"
  by (simp_all add: formatClientId_def alice_id_def bob_id_def toLowerCase_def trim_def
        isWhitespace_def CLIENT_ID_REGEX_def isClientIdChar_def Let_def)

lemma ids_differ: "alice_id \<noteq> bob_id" "bob_id \<noteq> alice_id" "alice_id \<noteq> []" "bob_id \<noteq> []"
  by (simp_all add: alice_id_def bob_id_def)

lemma short_texts:
  "take MAX_STRING_LENGTH (trim ''Sprint'') = ''Sprint''"
  "take MAX_STRING_LENGTH (trim ''Focus'') = ''Focus''"
  "take MAX_NAME_LENGTH (trim ''Alice'') = ''Alice''"
  "take MAX_NAME_LENGTH (trim ''Bob'') = ''Bob''"
  "take MAX_URL_LENGTH (trim []) = []"
  by (simp_all add: take_trim_short trim_def isWhitespace_def
        MAX_STRING_LENGTH_def MAX_NAME_LENGTH_def MAX_URL_LENGTH_def)

lemma idle_formatted: "formatTimer idle_internal = idle_timer"
   "formatInternalTimer idle_internal = idle_internal"
  by (simp_all add: formatTimer_def formatInternalTimer_def idle_internal_def idle_timer_def
        MAX_SAFE_INTEGER_def MAX_DURATION_def DEFAULT_DURATION_def
        timer_state.extend_def timer_internal.fields_def)

lemmas handler_defs =
  dispatch_def handleSessionJoin_def finishSessionJoin_def writeThrough_def
  handleSessionUpdate_def broadcastTimerUpdate_def handleUserList_def
  getSocketSession_def createSession_def getSession_def setSession_def mutateStored_def
  shareTimerCore_def sendMessage_def sendError_def broadcastToSession_def
  removeClient_def handleWebSocketClose_def

lemmas format_defs =
  formatNewSession_def formatInternalSession_def formatInternalUsers_def formatInternalUser_def
  formatUser_def formatIntervalList_def formatSessionCreatedMsg_def formatSessionJoinedMsg_def
  formatUserConnectedMsg_def formatUserUpdatedMsg_def formatSessionUpdatedMsg_def
  formatTimerUpdatedMsg_def formatUsersConnectedMsg_def formatErrorMsg_def itemsOf_def plainOf_def
  user.extend_def user_internal.fields_def

lemmas sample_defs =
  state_created_def state_closed_def state_two_def two_users_def room_session_def member_def
  conn_def newBroker_def newSocket_def sample_session_def

lemma new_core: "updateState 1000000 idle_timer (updateIntervals 1000000 sample_items (newTimerCore sample_items))
   = \<lparr>intervals = sample_items, state = idle_internal\<rparr>"
  by (simp add: updateState_def updateIntervals_def newTimerCore_def idle_timer_def idle_internal_def
      durationMs_def sample_items_def Let_def)

lemma idle_sync: "sync now \<lparr>intervals = ivs, state = idle_internal\<rparr> = Some \<lparr>intervals = ivs, state = idle_internal\<rparr>"
  by (simp add: sync_def idle_internal_def)

lemma error_texts:
  "trim ''Failed to process session_join'' = ''Failed to process session_join''"
  "trim ''Failed to process session_update'' = ''Failed to process session_update''"
  by (simp_all add: trim_def isWhitespace_def)

lemma msg_types:
  "messageType (joinMsg u) = ''session_join''"
  "messageType bad_update = ''session_update''"
  by (simp_all add: messageType_def joinMsg_def bad_update_def)

lemma step_create:
  "handleMessage H 1000000 ''s0'' uuid 0 (joinMsg alice) newBroker = Some (state_created H)"
  apply (simp add: handleMessage_def fmt_join)
  apply (simp add: joinMsg_def handler_defs format_defs sample_defs alice_def cid_ok room_ok short_texts
       sample_items_formatted new_core idle_sync idle_formatted ids_differ Let_def)
  done

lemma step_close:
  "handleWebSocketClose 1060000 0 (state_created H) = Threw TypeError (state_closed H)"
  apply (simp add: handler_defs format_defs sample_defs room_ok short_texts ids_differ Let_def)
  done

lemma step_second:
  "handleMessage H 1010000 ''s1'' uuid (Suc 0) (joinMsg bob) (state_created H) = Some (state_two H)"
  apply (simp add: handleMessage_def fmt_join msg_types)
  apply (simp add: joinMsg_def handler_defs format_defs sample_defs bob_def cid_ok room_ok short_texts
       sample_items_formatted new_core idle_sync idle_formatted ids_differ Let_def error_texts
       messageType_def)
  done

lemma step_rejoin:
  "handleMessage H 1020000 ''s2'' uuid 2 (joinMsg alice) (state_two H) = Some (state_three H)"
  apply (simp add: handleMessage_def fmt_join msg_types)
  apply (simp add: joinMsg_def handler_defs format_defs sample_defs state_three_def alice_def cid_ok room_ok short_texts
       sample_items_formatted new_core idle_sync idle_formatted ids_differ Let_def error_texts
       messageType_def)
  done

lemma step_list:
  "handleMessage H 1030000 ''s4'' uuid (Suc 0) UserList (state_three H) = Some (state_listed H)"
  apply (simp add: handleMessage_def formatIncoming_def)
  apply (simp add: handler_defs format_defs sample_defs state_three_def state_listed_def room_ok short_texts
       sample_items_formatted idle_sync idle_formatted ids_differ Let_def)
  done

subsection \<open>Stored users carry the hash of their key and no sockets\<close>

text \<open>
  A string that \<open>generateUUID\<close> can return matches \<open>CLIENT_ID_REGEX\<close>, so every client id that
  \<open>formatClientId\<close> returns does. The formatters keep the \<open>clientId\<close> of a user, and
  \<open>formatInternalUser\<close> returns a user without \<open>sockets\<close>.
\<close>

lemma generated_is_client_id: "isGeneratedUUID s \<Longrightarrow> CLIENT_ID_REGEX s"
proof -
  assume g: "isGeneratedUUID s"
  then have len: "length s = 36" by (simp add: isGeneratedUUID_def)
  from g have shape: "\<forall>i\<in>set [0..<36].
      if i = 8 \<or> i = 13 \<or> i = 18 \<or> i = 23 then s ! i = CHR ''-''
      else if i = 14 then s ! i = CHR ''4''
      else if i = 19 then s ! i \<in> set ''89ab''
      else isHexDigit (s ! i)"
    unfolding isGeneratedUUID_def list_all_iff by blast
  have "isClientIdChar (s ! i)" if "i < 36" for i
  proof -
    from that have "i \<in> set [0..<36]" by simp
    from bspec[OF shape this] show ?thesis
      by (auto simp: isClientIdChar_def isHexDigit_def Let_def split: if_splits)
  qed
  then show ?thesis using len by (simp add: CLIENT_ID_REGEX_def list_all_length)
qed

lemma formatClientId_regex:
  "CLIENT_ID_REGEX uuid \<Longrightarrow> CLIENT_ID_REGEX (formatClientId uuid x)"
  by (simp add: formatClientId_def Let_def)

lemma clientId_formatUser [simp]: "clientId (formatUser (Internal u)) = clientId u"
  by (simp add: formatUser_def)

lemma formatInternalUser_keeps [simp]:
  "clientId (formatInternalUser now (Internal u)) = clientId u"
  "sockets (formatInternalUser now (Internal u)) = None"
  by (simp_all add: formatInternalUser_def formatUser_def user.extend_def user_internal.fields_def)

lemma in_update: "p \<in> set (AList.update k v al) \<Longrightarrow> p = (k, v) \<or> p \<in> set al"
  by (induction al) (auto split: if_splits)

lemma in_delete: "p \<in> set (AList.delete k al) \<Longrightarrow> p \<in> set al"
  by (simp add: AList.delete_eq)

lemma hashedUsers_format:
  "hashedUsers H us \<Longrightarrow> hashedUsers H (formatInternalUsers now us)"
  by (auto simp: hashedUsers_def formatInternalUsers_def)

lemma hashedUsers_update:
  "hashedUsers H us \<Longrightarrow> CLIENT_ID_REGEX k \<Longrightarrow> clientId u = H k \<Longrightarrow> sockets u = None
   \<Longrightarrow> hashedUsers H (AList.update k u us)"
  by (auto simp: hashedUsers_def dest!: in_update)

lemma hashedUsers_delete: "hashedUsers H us \<Longrightarrow> hashedUsers H (AList.delete k us)"
  by (auto simp: hashedUsers_def dest!: in_delete)

lemma hashedUsers_lookup:
  "hashedUsers H us \<Longrightarrow> map_of us k = Some u
   \<Longrightarrow> CLIENT_ID_REGEX k \<and> clientId u = H k \<and> sockets u = None"
  by (auto simp: hashedUsers_def dest!: map_of_SomeD)

lemma formatUserList_fold:
  "hashedUsers H us \<Longrightarrow> \<forall>p \<in> set acc. \<exists>k. CLIENT_ID_REGEX k \<and> clientId (snd p) = H k
   \<Longrightarrow> \<forall>p \<in> set (fold (\<lambda>(k, u) acc. if clientId u \<noteq> []
                                      then AList.update (clientId u) (formatUser (Internal u)) acc
                                      else acc) us acc).
         \<exists>k. CLIENT_ID_REGEX k \<and> clientId (snd p) = H k"
proof (induction us arbitrary: acc)
  case Nil
  then show ?case by simp
next
  case (Cons a us)
  obtain k u where a: "a = (k, u)" by (cases a)
  from Cons.prems(1) a have ku: "CLIENT_ID_REGEX k" "clientId u = H k" and rest: "hashedUsers H us"
    by (auto simp: hashedUsers_def)
  have "\<forall>p \<in> set (if clientId u \<noteq> [] then AList.update (clientId u) (formatUser (Internal u)) acc
                   else acc). \<exists>k. CLIENT_ID_REGEX k \<and> clientId (snd p) = H k"
    using Cons.prems(2) ku by (auto dest!: in_update)
  from Cons.IH[OF rest this] show ?case by (simp add: a)
qed

lemma hashed_formatUserList:
  "hashedUsers H us \<Longrightarrow> \<forall>u \<in> set (map snd (formatUserList us)). \<exists>k. CLIENT_ID_REGEX k \<and> clientId u = H k"
  using formatUserList_fold[of H us "[]"] by (auto simp: formatUserList_def)

lemma hashedMessage_simple [simp]:
  "hashedMessage H (SessionCreated a c)"
  "hashedMessage H (SessionUpdated a su)"
  "hashedMessage H (TimerUpdated a t)"
  "hashedMessage H Pong"
  "hashedMessage H (ErrorMsg e)"
  by (simp_all add: hashedMessage_def)

lemma hashedMessage_error [simp]: "hashedMessage H (formatErrorMsg e)"
  by (simp add: formatErrorMsg_def)

lemma hashedMessage_created [simp]: "hashedMessage H (formatSessionCreatedMsg uuid a c)"
  by (simp add: formatSessionCreatedMsg_def)

lemma hashedMessage_joined:
  "hashedUsers H (users s) \<Longrightarrow> hashedMessage H (formatSessionJoinedMsg uuid a c s)"
  using hashed_formatUserList[of H "users s"]
  by (simp add: formatSessionJoinedMsg_def hashedMessage_def formatSession_def)

lemma hashedMessage_list:
  "hashedUsers H (users s) \<Longrightarrow> hashedMessage H (formatUsersConnectedMsg s)"
  using hashed_formatUserList[of H "users s"]
  by (simp add: formatUsersConnectedMsg_def hashedMessage_def)

lemma hashedMessage_user:
  "CLIENT_ID_REGEX k \<Longrightarrow> clientId u = H k \<Longrightarrow>
   hashedMessage H (formatUserConnectedMsg a u) \<and> hashedMessage H (formatUserDisconnectedMsg a u)
   \<and> hashedMessage H (formatUserUpdatedMsg a u)"
  by (auto simp: hashedMessage_def formatUserConnectedMsg_def formatUserDisconnectedMsg_def
        formatUserUpdatedMsg_def)

lemma hashedMessage_session [simp]:
  "hashedMessage H (formatSessionUpdatedMsg s)" "hashedMessage H (formatTimerUpdatedMsg s)"
  by (simp_all add: formatSessionUpdatedMsg_def formatTimerUpdatedMsg_def)

text \<open>
  The operations on the store and on the connections keep the invariant \<open>hashedBroker\<close>,
  given that the users written and the frames sent satisfy it.
\<close>

lemma hb_lookup:
  "hashedBroker H b \<Longrightarrow> getSession sid b = Some s \<Longrightarrow> hashedUsers H (users s)"
  by (auto simp: hashedBroker_def hashedStore_def getSession_def dest!: map_of_SomeD)

lemma hb_setSession:
  "hashedBroker H b \<Longrightarrow> hashedUsers H (users s) \<Longrightarrow> hashedBroker H (setSession now sid s b)"
  by (auto simp: hashedBroker_def hashedStore_def hashedOutboxes_def setSession_def
        formatInternalSession_def hashedUsers_format dest!: in_update)

lemma hb_mutate:
  "hashedBroker H b \<Longrightarrow> hashedUsers H (users s) \<Longrightarrow> hashedBroker H (mutateStored key s b)"
  by (auto simp: hashedBroker_def hashedStore_def hashedOutboxes_def mutateStored_def
        dest!: in_update split: option.splits)

lemma hb_share: "hashedBroker H b \<Longrightarrow> hashedBroker H (shareTimerCore key tc b)"
  by (auto simp: hashedBroker_def hashedStore_def hashedOutboxes_def shareTimerCore_def
        dest!: in_update map_of_SomeD split: option.splits)

lemma hb_writeThrough:
  "hashedBroker H b \<Longrightarrow> hashedUsers H (users s) \<Longrightarrow> hashedBroker H (writeThrough isNew key s b)"
  by (simp add: writeThrough_def hb_share hb_mutate)

lemma hb_send:
  "hashedBroker H b \<Longrightarrow> hashedMessage H m \<Longrightarrow> hashedBroker H (sendMessage h m b)"
  by (auto simp: hashedBroker_def hashedStore_def hashedOutboxes_def sendMessage_def)

lemma hb_sendError: "hashedBroker H b \<Longrightarrow> hashedBroker H (sendError h e b)"
  by (simp add: sendError_def hb_send)

lemma hb_sendToSockets:
  "hashedBroker H b \<Longrightarrow> hashedMessage H m \<Longrightarrow> hashedBroker H (sendToSockets socks m ex b)"
  unfolding sendToSockets_def
  by (induction socks arbitrary: b) (auto simp: hb_send)

lemma hb_broadcastUsers:
  "hashedBroker H b \<Longrightarrow> hashedMessage H m
   \<Longrightarrow> hashedBroker H (stateOf (broadcastUsers us m ex ig b))"
  by (induction us m ex ig b rule: broadcastUsers.induct)
     (auto simp: stateOf_def hb_sendToSockets split: option.splits)

lemma hb_broadcast:
  "hashedBroker H b \<Longrightarrow> hashedMessage H m
   \<Longrightarrow> hashedBroker H (stateOf (broadcastToSession s m ex ig b))"
  by (simp add: broadcastToSession_def hb_broadcastUsers)

lemma hb_conn_ids:
  "hashedBroker H b \<Longrightarrow>
   hashedBroker H (b\<lparr>conns := (conns b)(h := (conns b h)\<lparr>wsSocketId := a, wsSessionId := c,
                                                       wsClientId := d\<rparr>)\<rparr>)"
  by (auto simp: hashedBroker_def hashedStore_def hashedOutboxes_def)

lemma hb_conn_state:
  "hashedBroker H b \<Longrightarrow>
   hashedBroker H (b\<lparr>conns := (conns b)(h := (conns b h)\<lparr>readyState := r\<rparr>)\<rparr>)"
  by (auto simp: hashedBroker_def hashedStore_def hashedOutboxes_def)

lemma hb_delete_session:
  "hashedBroker H b \<Longrightarrow> hashedBroker H (b\<lparr>sessions := AList.delete key (sessions b)\<rparr>)"
  by (auto simp: hashedBroker_def hashedStore_def hashedOutboxes_def dest!: in_delete)

lemma hb_new: "hashedBroker H newBroker"
  by (simp add: hashedBroker_def hashedStore_def hashedOutboxes_def newBroker_def newSocket_def)

lemma hb_createSession:
  "hashedBroker H b \<Longrightarrow> createSession now sid upd tmr b = (b1, s)
   \<Longrightarrow> hashedBroker H b1 \<and> users s = []"
  by (auto simp: createSession_def Let_def formatNewSession_def hashedUsers_def
        intro!: hb_setSession)

lemma hb_getSocketSession:
  "hashedBroker H b \<Longrightarrow> getSocketSession now h b = (b1, r)
   \<Longrightarrow> hashedBroker H b1 \<and> (\<forall>s. r = Some s \<longrightarrow> hashedUsers H (users s))"
  by (auto simp: getSocketSession_def Let_def hb_sendError
        intro!: hb_setSession hb_mutate dest: hb_lookup split: option.splits)

text \<open>
  Every handler keeps the invariant, whether it returns or throws. In \<open>handleSessionJoin\<close>
  the user stored for a new client carries the hash of the client id; for a client the
  session already has, the stored user has no \<open>sockets\<close>, so the handler throws before it
  writes to that user.
\<close>

lemma hb_finish:
  assumes "hashedBroker H b" "hashedUsers H (users s)" "CLIENT_ID_REGEX k" "clientId joined = H k"
  shows "hashedBroker H (stateOf (finishSessionJoin now sid uuid h sessId cid isNew s joined b))"
proof -
  have 1: "hashedBroker H (setSession now (sessionId s) s (writeThrough isNew sessId s b))"
    using assms by (simp add: hb_setSession hb_writeThrough)
  have 2: "hashedMessage H (if isNew then formatSessionCreatedMsg uuid sessId cid
                            else formatSessionJoinedMsg uuid sessId cid s)"
    using assms(2) by (simp add: hashedMessage_joined)
  show ?thesis
    unfolding finishSessionJoin_def Let_def
    by (intro hb_broadcast hb_send 1 2)
       (simp add: hashedMessage_user[of k joined H, OF assms(3,4)])
qed

lemma hb_join:
  assumes inv: "hashedBroker H b" and uu: "CLIENT_ID_REGEX uuid"
    and res: "handleSessionJoin H now sid uuid h sessId upd tmr usr b = Some r"
  shows "hashedBroker H (stateOf r)"
proof -
  let ?cid = "formatClientId uuid (clientId (plainOf usr))"
  let ?b1 = "b\<lparr>conns := (conns b)(h := (conns b h)\<lparr>wsSocketId := sid, wsSessionId := sessId,
                                                     wsClientId := ?cid\<rparr>)\<rparr>"
  obtain b2 s where bs: "(case getSession sessId ?b1 of
                            None \<Rightarrow> createSession now sessId upd tmr ?b1
                          | Some s0 \<Rightarrow> (?b1, s0)) = (b2, s)"
    by (cases "case getSession sessId ?b1 of None \<Rightarrow> createSession now sessId upd tmr ?b1
                                 | Some s0 \<Rightarrow> (?b1, s0)")
  have c: "CLIENT_ID_REGEX ?cid" using uu by (simp add: formatClientId_regex)
  have i1: "hashedBroker H ?b1" using inv by (rule hb_conn_ids)
  have i2: "hashedBroker H b2 \<and> hashedUsers H (users s)"
  proof (cases "getSession sessId ?b1")
    case None
    with bs have "createSession now sessId upd tmr ?b1 = (b2, s)" by simp
    from hb_createSession[OF i1 this] show ?thesis by (simp add: hashedUsers_def)
  next
    case (Some s0)
    with bs have "b2 = ?b1" "s = s0" by simp_all
    with i1 hb_lookup[OF i1 Some] show ?thesis by simp
  qed
  have "sync now (timerCore s) \<noteq> None"
  proof
    assume "sync now (timerCore s) = None"
    with res show False
      by (simp add: handleSessionJoin_def Let_def bs)
  qed
  then obtain tc where tc: "sync now (timerCore s) = Some tc" by blast
  let ?s1 = "s\<lparr>timerCore := tc, timer := state tc\<rparr>"
  have u1: "hashedUsers H (users ?s1)" using i2 by simp
  show ?thesis
  proof (cases "map_of (users s) ?cid")
    case None
    let ?joined = "formatInternalUser now
                                     (Internal \<lparr>clientId = H ?cid, uname = uname (plainOf usr),
                                                avatarUrl = avatarUrl (plainOf usr),
                                                isOnline = True,
                                                lastPing = now, offlineAt = 0, ws = None,
                                                sockets = Some [(sid, h)]\<rparr>)"
    have j: "clientId ?joined = H ?cid" "sockets ?joined = None" by simp_all
    have u2: "hashedUsers H (users (?s1\<lparr>users := AList.update ?cid ?joined (users ?s1)\<rparr>))"
      using u1 c j by (simp add: hashedUsers_update)
    from res None tc have "r = finishSessionJoin now sid uuid h sessId ?cid (getSession sessId ?b1 = None)
                                (?s1\<lparr>users := AList.update ?cid ?joined (users ?s1)\<rparr>) ?joined b2"
      by (simp add: handleSessionJoin_def Let_def bs)
    then show ?thesis using hb_finish[OF _ u2 c j(1)] i2 by simp
  next
    case (Some ex)
    from i2 have "sockets ex = None"
      using hashedUsers_lookup[OF _ Some] by blast
    with res Some tc have "r = Threw TypeError (writeThrough (getSession sessId ?b1 = None) sessId ?s1 b2)"
      by (simp add: handleSessionJoin_def Let_def bs)
    then show ?thesis using i2 u1 by (simp add: stateOf_def hb_writeThrough)
  qed
qed

lemma hb_timerBroadcast:
  "hashedBroker H b \<Longrightarrow> broadcastTimerUpdate now s ex b = Some r \<Longrightarrow> hashedBroker H (stateOf r)"
  by (auto simp: broadcastTimerUpdate_def Let_def intro!: hb_broadcast hb_share
        split: option.splits)

lemma hb_sessionUpdate:
  assumes inv: "hashedBroker H b" and res: "handleSessionUpdate now h upd tmr b = Some r"
  shows "hashedBroker H (stateOf r)"
proof -
  obtain b1 g where g: "getSocketSession now h b = (b1, g)" by (cases "getSocketSession now h b")
  from hb_getSocketSession[OF inv g]
  have i1: "hashedBroker H b1" and us: "\<And>s. g = Some s \<Longrightarrow> hashedUsers H (users s)" by auto
  show ?thesis
  proof (cases g)
    case None
    with res g i1 show ?thesis by (auto simp: handleSessionUpdate_def stateOf_def)
  next
    case (Some s)
    show ?thesis
    proof (cases "items (uIntervals upd)")
      case NotArray
      with res g Some i1 show ?thesis
        by (auto simp: handleSessionUpdate_def stateOf_def hb_sendError)
    next
      case (Array xs)
      let ?s1 = "s\<lparr>sname := uName upd, description := uDescription upd,
                           intervalList := uIntervals upd\<rparr>"
      let ?tc1 = "updateIntervals now xs (timerCore ?s1)"
      let ?t = "case tmr of Some t \<Rightarrow> Some (updateState now t ?tc1) | None \<Rightarrow> sync now ?tc1"
      have "?t \<noteq> None"
      proof
        assume "?t = None"
        with res g Some Array show False
          by (cases tmr) (simp_all add: handleSessionUpdate_def Let_def)
      qed
      then obtain tc2 where tc2: "?t = Some tc2" by blast
      define s2 where "s2 = ?s1\<lparr>timerCore := tc2, timer := state tc2\<rparr>"
      define b2 where "b2 = setSession now (sessionId s2) s2 b1"
      have u2: "hashedUsers H (users s2)" using us[OF Some] by (simp add: s2_def)
      have i2: "hashedBroker H b2" using i1 u2 by (simp add: b2_def hb_setSession)
      have bc: "hashedBroker H (stateOf (broadcastToSession s2 (formatSessionUpdatedMsg s2)
                                  (wsSocketId (conns b2 h)) [] b2))"
        using i2 by (simp add: hb_broadcast)
      from res g Some Array tc2
      have r: "(case broadcastToSession s2 (formatSessionUpdatedMsg s2)
                                  (wsSocketId (conns b2 h)) [] b2 of
                             Threw e b3 \<Rightarrow> Some (Threw e b3)
                           | Returned b3 \<Rightarrow>
                               broadcastTimerUpdate now s2 (wsSocketId (conns b3 h)) b3) = Some r"
        unfolding s2_def b2_def
        by (cases tmr) (simp_all add: handleSessionUpdate_def Let_def cong: outcome.case_cong)
      show ?thesis
      proof (cases "broadcastToSession s2 (formatSessionUpdatedMsg s2) (wsSocketId (conns b2 h)) [] b2")
        case (Returned b3)
        with bc have "hashedBroker H b3" by (simp add: stateOf_def)
        with r Returned show ?thesis by (auto dest: hb_timerBroadcast)
      next
        case (Threw e b3)
        with bc r show ?thesis by (auto simp: stateOf_def)
      qed
    qed
  qed
qed

lemma hb_timerUpdate:
  assumes inv: "hashedBroker H b" and res: "handleTimerUpdate now h tmr b = Some r"
  shows "hashedBroker H (stateOf r)"
proof -
  obtain b1 g where g: "getSocketSession now h b = (b1, g)" by (cases "getSocketSession now h b")
  from hb_getSocketSession[OF inv g]
  have i1: "hashedBroker H b1" and us: "\<And>s. g = Some s \<Longrightarrow> hashedUsers H (users s)" by auto
  show ?thesis
  proof (cases g)
    case None
    with res g i1 show ?thesis by (auto simp: handleTimerUpdate_def stateOf_def)
  next
    case (Some s)
    have "hashedBroker H (setSession now (sessionId s) (s\<lparr>timerCore := updateState now tmr (timerCore s),
              timer := state (updateState now tmr (timerCore s))\<rparr>) b1)"
      using i1 us[OF Some] by (simp add: hb_setSession)
    with res g Some show ?thesis
      by (auto simp: handleTimerUpdate_def Let_def dest: hb_timerBroadcast)
  qed
qed

lemma hb_userUpdate:
  assumes inv: "hashedBroker H b"
  shows "hashedBroker H (stateOf (handleUserUpdate now h usr b))"
proof (cases "wsClientId (conns b h) = []")
  case True
  then show ?thesis using inv by (simp add: handleUserUpdate_def stateOf_def)
next
  case False
  obtain b1 g where g: "getSocketSession now h b = (b1, g)" by (cases "getSocketSession now h b")
  from hb_getSocketSession[OF inv g]
  have i1: "hashedBroker H b1" and us: "\<And>s. g = Some s \<Longrightarrow> hashedUsers H (users s)" by auto
  show ?thesis
  proof (cases g)
    case None
    with False g i1 show ?thesis by (simp add: handleUserUpdate_def stateOf_def)
  next
    case (Some s)
    show ?thesis
    proof (cases "map_of (users s) (wsClientId (conns b h))")
      case None
      with False g Some i1 show ?thesis by (simp add: handleUserUpdate_def stateOf_def)
    next
      case (Some ex)
      note ex = hashedUsers_lookup[OF us[OF \<open>g = Some s\<close>] Some]
      define ex1 where "ex1 = ex\<lparr>uname := uname (plainOf usr), avatarUrl := avatarUrl (plainOf usr)\<rparr>"
      have e1: "clientId ex1 = H (wsClientId (conns b h))" "sockets ex1 = None"
        using ex by (simp_all add: ex1_def)
      have u1: "hashedUsers H (users (s\<lparr>users := AList.update (wsClientId (conns b h)) ex1 (users s)\<rparr>))"
        using us[OF \<open>g = Some s\<close>] ex e1 by (simp add: hashedUsers_update)
      have "hashedBroker H (stateOf (broadcastToSession (s\<lparr>users := AList.update (wsClientId (conns b h)) ex1 (users s)\<rparr>)
               (formatUserUpdatedMsg (sessionId s) ex1) ex0 []
               (setSession now (sessionId s) (s\<lparr>users := AList.update (wsClientId (conns b h)) ex1 (users s)\<rparr>) b1)))"
        for ex0
        using i1 u1 hashedMessage_user[of "wsClientId (conns b h)" ex1 H "sessionId s"] ex e1
        by (intro hb_broadcast hb_setSession) simp_all
      with False g \<open>g = Some s\<close> Some show ?thesis
        by (simp add: handleUserUpdate_def Let_def ex1_def)
    qed
  qed
qed

lemma hb_userList:
  assumes inv: "hashedBroker H b"
  shows "hashedBroker H (handleUserList now h b)"
proof -
  obtain b1 g where g: "getSocketSession now h b = (b1, g)" by (cases "getSocketSession now h b")
  from hb_getSocketSession[OF inv g] g show ?thesis
    by (cases g) (auto simp: handleUserList_def hb_send hashedMessage_list)
qed

lemma hb_dispatch:
  assumes inv: "hashedBroker H b" and uu: "CLIENT_ID_REGEX uuid"
    and res: "dispatch H now sid uuid h parsed b = Some r"
  shows "hashedBroker H (stateOf r)"
  using res inv uu
  by (cases parsed)
     (auto simp: dispatch_def stateOf_def hb_sendError hb_userList
        dest: hb_join hb_sessionUpdate hb_timerUpdate
        intro: hb_userUpdate[unfolded stateOf_def])

lemma hb_handleMessage:
  assumes inv: "hashedBroker H b" and uu: "CLIENT_ID_REGEX uuid"
    and res: "handleMessage H now sid uuid h m b = Some b1"
  shows "hashedBroker H b1"
proof (cases "formatIncoming m")
  case (Inl e)
  with res inv show ?thesis by (auto simp: handleMessage_def hb_sendError)
next
  case (Inr parsed)
  with res obtain r where r: "dispatch H now sid uuid h parsed b = Some r"
    by (auto simp: handleMessage_def split: option.splits)
  from hb_dispatch[OF inv uu r] res Inr r show ?thesis
    by (cases r) (auto simp: handleMessage_def stateOf_def hb_sendError)
qed

text \<open>
  \<open>removeClient\<close> changes nothing in a state that satisfies the invariant: it returns
  early or throws at \<open>user.sockets.delete\<close>. The cleanup passes delete sessions and users
  and change \<open>offlineAt\<close> and \<open>emptyAt\<close>, which keeps the invariant, and what they broadcast
  is a stored user. So every run keeps it.
\<close>

lemma hb_removeClient:
  assumes inv: "hashedBroker H b"
  shows "stateOf (removeClient now h b) = b"
proof (cases "wsSocketId (conns b h) = [] \<or> wsSessionId (conns b h) = [] \<or> wsClientId (conns b h) = []")
  case True
  then show ?thesis by (auto simp: removeClient_def Let_def stateOf_def)
next
  case False
  show ?thesis
  proof (cases "getSession (wsSessionId (conns b h)) b")
    case None
    with False show ?thesis by (simp add: removeClient_def Let_def stateOf_def)
  next
    case (Some s)
    show ?thesis
    proof (cases "map_of (users s) (wsClientId (conns b h))")
      case None
      with False Some show ?thesis by (simp add: removeClient_def Let_def stateOf_def)
    next
      case (Some u)
      from hashedUsers_lookup[OF hb_lookup[OF inv \<open>getSession (wsSessionId (conns b h)) b = Some s\<close>] Some]
      have "sockets u = None" by simp
      with False Some \<open>getSession (wsSessionId (conns b h)) b = Some s\<close> show ?thesis
        by (simp add: removeClient_def Let_def stateOf_def)
    qed
  qed
qed

lemma hb_close:
  "hashedBroker H b \<Longrightarrow> hashedBroker H (stateOf (handleWebSocketClose now h b))"
  using hb_removeClient[OF hb_conn_state, of H b now h h 3]
  by (simp add: handleWebSocketClose_def hb_conn_state)

lemma hb_cleanupSessionsFrom:
  "hashedBroker H b \<Longrightarrow> hashedBroker H (stateOf (cleanupSessionsFrom now ss b))"
  by (induction now ss b rule: cleanupSessionsFrom.induct)
     (auto simp: stateOf_def hb_delete_session split: sum.splits)

lemma hb_cleanupSessions:
  "hashedBroker H b \<Longrightarrow> hashedBroker H (stateOf (cleanupSessions now b))"
  by (simp add: cleanupSessions_def hb_cleanupSessionsFrom)

lemma hashed_trackUsers:
  "hashedUsers H us \<Longrightarrow> hashedUsers H (snd (trackUsers now b us))"
  by (induction us)
     (auto simp: hashedUsers_def Let_def split: sum.splits prod.splits)

lemma hashed_trackSessions:
  "\<forall>(key, s) \<in> set ss. hashedUsers H (users s)
   \<Longrightarrow> \<forall>(key, s) \<in> set (snd (trackSessions now b ss)). hashedUsers H (users s)"
proof (induction ss)
  case Nil
  then show ?case by simp
next
  case (Cons a ss)
  obtain key s where a: "a = (key, s)" by (cases a)
  obtain e us where t: "trackUsers now b (users s) = (e, us)" by (cases "trackUsers now b (users s)")
  from Cons.prems a have hs: "hashedUsers H (users s)" by simp
  from hashed_trackUsers[OF hs, of now b] t have hu: "hashedUsers H us" by simp
  from Cons.prems have rest: "\<forall>(key, s) \<in> set ss. hashedUsers H (users s)" by simp
  note ih = Cons.IH[OF rest]
  show ?case
  proof (cases e)
    case None
    with a t hu ih show ?thesis by (auto split: prod.splits)
  next
    case (Some x)
    with a t hu rest show ?thesis by auto
  qed
qed

lemma hb_track:
  "hashedBroker H b \<Longrightarrow> hashedBroker H (stateOf (trackOfflineUsers now b))"
  using hashed_trackSessions[of "sessions b" H now b]
  by (auto simp: trackOfflineUsers_def stateOf_def hashedBroker_def hashedStore_def
        hashedOutboxes_def split: prod.splits option.splits)

lemma hb_reapUsers:
  "hashedBroker H b \<Longrightarrow> hashedUsers H (users s) \<Longrightarrow> reapUsers key remove s b = (e, s1, b1)
   \<Longrightarrow> hashedBroker H b1 \<and> hashedUsers H (users s1)"
proof (induction remove arbitrary: s b)
  case Nil
  then show ?case by simp
next
  case (Cons cid rest)
  show ?case
  proof (cases "map_of (users s) cid")
    case None
    with Cons show ?thesis by simp
  next
    case (Some u)
    note ku = hashedUsers_lookup[OF Cons.prems(2) Some]
    let ?s1 = "s\<lparr>users := AList.delete cid (users s)\<rparr>"
    have u1: "hashedUsers H (users ?s1)" using Cons.prems(2) by (simp add: hashedUsers_delete)
    have bc: "hashedBroker H (stateOf (broadcastToSession ?s1 (formatUserDisconnectedMsg key u) [] cid b))"
      using Cons.prems(1) hashedMessage_user[of cid u H key] ku by (intro hb_broadcast) simp_all
    show ?thesis
    proof (cases "broadcastToSession ?s1 (formatUserDisconnectedMsg key u) [] cid b")
      case (Returned b2)
      with bc have "hashedBroker H b2" by (simp add: stateOf_def)
      from Cons.IH[OF this u1] Cons.prems(3) Some Returned show ?thesis by (simp add: Let_def)
    next
      case (Threw x b2)
      with bc Cons.prems(3) Some u1 show ?thesis by (auto simp: Let_def stateOf_def)
    qed
  qed
qed

lemma hb_reapSessionUsers:
  assumes "hashedBroker H b" "hashedUsers H (users s)"
  shows "hashedBroker H (stateOf (reapSessionUsers ci now key s b))"
proof -
  let ?remove = "map fst (filter (\<lambda>(cid, u). offlineAt u \<noteq> 0 \<and> now - offlineAt u > ci) (users s))"
  obtain e s1 b1 where r: "reapUsers key ?remove s b = (e, s1, b1)"
    by (cases "reapUsers key ?remove s b")
  from hb_reapUsers[OF assms r] have "hashedBroker H b1" "hashedUsers H (users s1)" by simp_all
  then show ?thesis using r
    by (cases e) (auto simp: reapSessionUsers_def Let_def stateOf_def intro!: hb_mutate)
qed

lemma hb_reapSessions:
  "hashedBroker H b \<Longrightarrow> \<forall>(key, s) \<in> set ss. hashedUsers H (users s)
   \<Longrightarrow> hashedBroker H (stateOf (reapSessions ci now ss b))"
proof (induction ss arbitrary: b)
  case Nil
  then show ?case by (simp add: stateOf_def)
next
  case (Cons a ss)
  obtain key s where a: "a = (key, s)" by (cases a)
  from Cons.prems a have hs: "hashedUsers H (users s)"
    and rest: "\<forall>(key, s) \<in> set ss. hashedUsers H (users s)" by simp_all
  note one = hb_reapSessionUsers[OF Cons.prems(1) hs, of ci now key]
  show ?case
  proof (cases "reapSessionUsers ci now key s b")
    case (Returned b1)
    with one have "hashedBroker H b1" by (simp add: stateOf_def)
    from Cons.IH[OF this rest] Returned a show ?thesis by simp
  next
    case (Threw e b1)
    with one a show ?thesis by (simp add: stateOf_def)
  qed
qed

lemma hb_cleanupOfflineUsers:
  assumes "hashedBroker H b"
  shows "hashedBroker H (stateOf (cleanupOfflineUsers ci now b))"
proof (cases "trackOfflineUsers now b")
  case (Returned b1)
  with hb_track[OF assms, of now] have i: "hashedBroker H b1" by (simp add: stateOf_def)
  then have "\<forall>(key, s) \<in> set (sessions b1). hashedUsers H (users s)"
    by (simp add: hashedBroker_def hashedStore_def)
  from hb_reapSessions[OF i this] Returned show ?thesis by (simp add: cleanupOfflineUsers_def)
next
  case (Threw e b1)
  with hb_track[OF assms, of now] show ?thesis by (simp add: cleanupOfflineUsers_def stateOf_def)
qed

lemma hb_tick:
  assumes "hashedBroker H b"
  shows "hashedBroker H (stateOf (cleanupTick ci now b))"
proof (cases "cleanupSessions now b")
  case (Returned b1)
  with hb_cleanupSessions[OF assms, of now] have "hashedBroker H b1" by (simp add: stateOf_def)
  from hb_cleanupOfflineUsers[OF this] Returned show ?thesis by (simp add: cleanupTick_def)
next
  case (Threw e b1)
  with hb_cleanupSessions[OF assms, of now] show ?thesis by (simp add: cleanupTick_def stateOf_def)
qed

lemma hb_run:
  "hashedBroker H b \<Longrightarrow> list_all drawsUUIDs evs \<Longrightarrow> run H evs b = Some b1 \<Longrightarrow> hashedBroker H b1"
proof (induction H evs b rule: run.induct)
  case (1 H b)
  then show ?case by simp
next
  case (2 H now sid uuid h m evs b)
  then show ?case
    by (auto split: option.splits dest!: generated_is_client_id dest: hb_handleMessage)
next
  case (3 H now h evs b)
  then show ?case by (simp add: hb_close)
next
  case (4 H ci now evs b)
  then show ?case by (simp add: hb_tick)
next
  case (5 H h r evs b)
  then show ?case by (simp add: hb_conn_state)
qed

subsection \<open>The client id in outbound user objects\<close>

text \<open>
  The stand-in hash of the sample runs returns 64 hexadecimal digits.
\<close>

lemma zero_is_hex: "isHexDigit (CHR ''0'')"
  by (simp add: isHexDigit_def)

lemma sample_hash_shape: "length (sample_hash x) = 64 \<and> list_all isHexDigit (sample_hash x)"
proof -
  have len: "length (sample_hash x) = 64"
    unfolding sample_hash_def length_take length_append length_replicate by linarith
  have "isHexDigit c" if "c \<in> set (sample_hash x)" for c
  proof -
    from that have "c \<in> set (filter isHexDigit x @ replicate 64 (CHR ''0''))"
      unfolding sample_hash_def by (rule in_set_takeD)
    then have "c \<in> set (filter isHexDigit x) \<or> c \<in> set (replicate 64 (CHR ''0''))"
      unfolding set_append by blast
    then show ?thesis
    proof
      assume "c \<in> set (filter isHexDigit x)"
      then show ?thesis unfolding set_filter by blast
    next
      assume "c \<in> set (replicate 64 (CHR ''0''))"
      then have "c = CHR ''0''" unfolding in_set_replicate by blast
      then show ?thesis using zero_is_hex by blast
    qed
  qed
  then have "list_all isHexDigit (sample_hash x)" unfolding list_all_iff by blast
  with len show ?thesis by blast
qed

text \<open>
  Claim C2. After any run of events from the initial state, every user object that the
  session manager has sent in a frame (in a session snapshot, \<open>user_connected\<close>,
  \<open>user_updated\<close>, \<open>user_disconnected\<close> or \<open>users_connected\<close>), and every user object of the
  snapshot that \<open>GET /api/session/:id\<close> serves for a stored session, carries as \<open>clientId\<close>
  the hash of a client id. When the hash function returns 64 hexadecimal digits, as
  SHA-256 does, the field is 64 hexadecimal digits and is not a string of the form of a
  raw client id. This includes the frames sent after an existing user joins again: the
  stored user has no \<open>sockets\<close>, so \<open>sockets.set\<close> throws before \<open>Object.assign\<close> could write
  the raw id of the message over the stored hash.
\<close>

theorem outbound_clientIds_hashed:
  assumes "list_all drawsUUIDs evs" and "run H evs newBroker = Some b"
    and "(\<exists>h m. m \<in> set (outbox (conns b h)) \<and> u \<in> set (userObjects m))
         \<or> (\<exists>sid s. getSession sid b = Some s \<and> u \<in> snd ` set (xUsers (formatSession s)))"
  shows "(\<exists>k. CLIENT_ID_REGEX k \<and> clientId u = H k)
         \<and> ((\<forall>x. length (H x) = 64 \<and> list_all isHexDigit (H x))
              \<longrightarrow> length (clientId u) = 64 \<and> list_all isHexDigit (clientId u)
                  \<and> \<not> CLIENT_ID_REGEX (clientId u))"
proof -
  from hb_run[OF hb_new assms(1,2)] have inv: "hashedBroker H b" .
  from assms(3) have "\<exists>k. CLIENT_ID_REGEX k \<and> clientId u = H k"
  proof
    assume "\<exists>h m. m \<in> set (outbox (conns b h)) \<and> u \<in> set (userObjects m)"
    then obtain h m where m: "m \<in> set (outbox (conns b h))" and u: "u \<in> set (userObjects m)"
      by blast
    from inv m have "hashedMessage H m" by (simp add: hashedBroker_def hashedOutboxes_def)
    with u show ?thesis unfolding hashedMessage_def by blast
  next
    assume "\<exists>sid s. getSession sid b = Some s \<and> u \<in> snd ` set (xUsers (formatSession s))"
    then obtain sid s where s: "getSession sid b = Some s"
      and u: "u \<in> snd ` set (xUsers (formatSession s))" by blast
    from hashed_formatUserList[OF hb_lookup[OF inv s]] u show ?thesis
      by (auto simp: formatSession_def)
  qed
  then obtain k where k: "CLIENT_ID_REGEX k" "clientId u = H k" by blast
  then show ?thesis by (auto simp: CLIENT_ID_REGEX_def)
qed

theorem outbound_clientIds_hashed_witness:
  "list_all drawsUUIDs reconnect_events
   \<and> run sample_hash reconnect_events newBroker = Some (state_listed sample_hash)
   \<and> UsersConnected room (formatUserList (two_users sample_hash))
        \<in> set (outbox (conns (state_listed sample_hash) 1))
   \<and> \<lparr>clientId = sample_hash alice_id, uname = ''Alice'', avatarUrl = [], isOnline = True\<rparr>
        \<in> set (userObjects (UsersConnected room (formatUserList (two_users sample_hash))))
   \<and> (\<forall>x. length (sample_hash x) = 64 \<and> list_all isHexDigit (sample_hash x))
   \<and> (\<exists>k. CLIENT_ID_REGEX k \<and> sample_hash alice_id = sample_hash k)
   \<and> length (sample_hash alice_id) = 64 \<and> list_all isHexDigit (sample_hash alice_id)
   \<and> \<not> CLIENT_ID_REGEX (sample_hash alice_id)"
proof -
  have d: "list_all drawsUUIDs reconnect_events"
    unfolding reconnect_events_def by code_simp
  have r: "run sample_hash reconnect_events newBroker = Some (state_listed sample_hash)"
    by (simp add: reconnect_events_def step_create step_second step_rejoin step_list)
  have m: "UsersConnected room (formatUserList (two_users sample_hash))
             \<in> set (outbox (conns (state_listed sample_hash) 1))"
    by (simp add: state_listed_def conn_def)
  have u: "\<lparr>clientId = sample_hash alice_id, uname = ''Alice'', avatarUrl = [], isOnline = True\<rparr>
             \<in> set (userObjects (UsersConnected room (formatUserList (two_users sample_hash))))"
    by code_simp
  have sh: "\<forall>x. length (sample_hash x) = 64 \<and> list_all isHexDigit (sample_hash x)"
    using sample_hash_shape by blast
  from m u have e: "(\<exists>h m. m \<in> set (outbox (conns (state_listed sample_hash) h))
                  \<and> \<lparr>clientId = sample_hash alice_id, uname = ''Alice'', avatarUrl = [],
                       isOnline = True\<rparr> \<in> set (userObjects m))
         \<or> (\<exists>sid s. getSession sid (state_listed sample_hash) = Some s
                \<and> \<lparr>clientId = sample_hash alice_id, uname = ''Alice'', avatarUrl = [],
                     isOnline = True\<rparr> \<in> snd ` set (xUsers (formatSession s)))"
    by blast
  from outbound_clientIds_hashed[OF d r e] sh
  have c: "(\<exists>k. CLIENT_ID_REGEX k \<and> sample_hash alice_id = sample_hash k)
           \<and> length (sample_hash alice_id) = 64 \<and> list_all isHexDigit (sample_hash alice_id)
           \<and> \<not> CLIENT_ID_REGEX (sample_hash alice_id)"
    by simp
  from d r m u sh c show ?thesis by blast
qed

subsection \<open>A session update whose items is not an array\<close>

text \<open>
  Whatever \<open>formatIncoming\<close> returns for a \<open>session_update\<close> carries an array of items:
  \<open>formatIntervalList\<close> has replaced anything else by the empty array. \<open>handleMessage\<close>
  hands only formatted messages to \<open>handleSessionUpdate\<close>, whose test for a non-array
  therefore never fires.
\<close>

lemma formatted_items_are_array:
  "formatIncoming m = Inr (SessionUpdate upd t) \<Longrightarrow> \<exists>xs. items (uIntervals upd) = Array xs"
  by (cases m)
     (auto simp: formatIncoming_def formatSessionJoinMsg_def formatSessionUpdateMsg_def
        formatTimerUpdateMsg_def formatUserUpdateMsg_def formatSessionUpdate_def
        formatIntervalList_def split: items_field.splits)

text \<open>
  Claim C1 says that a \<open>session_update\<close> whose \<open>session.intervals.items\<close> is not an array
  is answered with the error \<open>Invalid intervals data\<close> and leaves the session unchanged.
  The code does otherwise. In the run below Alice, who created the room with three
  intervals and was joined by Bob, sends such an update on connection 0. The room is
  renamed, its description replaced and its interval list becomes the empty array, in
  the session and in its timer core, and the session is stored. The broadcast of
  \<open>session_updated\<close> then throws at the first user (no stored user has \<open>sockets\<close>), so what
  Alice's connection receives is \<open>Failed to process session_update\<close>, not
  \<open>Invalid intervals data\<close>; Bob's connection receives nothing.
\<close>

theorem non_array_items_accepted:
  "\<exists>b s. run H bad_update_events newBroker = Some b \<and> getSession room b = Some s
         \<and> sname s = ''Renamed'' \<and> description s = ''Changed''
         \<and> intervalList s = \<lparr>lastUpdated = 1030000, items = Array []\<rparr>
         \<and> intervals (timerCore s) = []
         \<and> outbox (conns b 0)
             = [SessionCreated room alice_id, ErrorMsg ''Failed to process session_update'']
         \<and> outbox (conns b 1) = outbox (conns (state_two H) 1)"
  apply (simp add: bad_update_events_def step_create step_second)
  apply (simp add: handleMessage_def bad_update_def formatIncoming_def formatSessionUpdateMsg_def
       formatSessionUpdate_def formatIntervalList_def messageType_def)
  apply (simp add: handler_defs format_defs sample_defs room_ok short_texts
       sample_items_formatted idle_sync idle_formatted ids_differ Let_def error_texts
       take_trim_short trim_def isWhitespace_def MAX_STRING_LENGTH_def
       updateIntervals_def sync_def idle_internal_def durationMs_def formatTimer_def formatInternalTimer_def
       timer_state.extend_def timer_internal.fields_def
       MAX_SAFE_INTEGER_def MAX_DURATION_def DEFAULT_DURATION_def messageType_def)
  done

subsection \<open>The empty stamp when the last connection closes\<close>

text \<open>
  Claim C3 says that \<open>emptyAt\<close> is set exactly when no user of the session has an open
  connection. The code does otherwise. In the run below Alice creates the room on
  connection 0 and the connection closes at 1060000. \<open>removeClient\<close> finds Alice's stored
  user and throws at \<open>user.sockets.delete\<close>, before it marks the user offline or stamps the
  session; a cleanup tick after that throws as well, in \<open>cleanupSessions\<close>, before
  \<open>cleanupOfflineUsers\<close> could stamp the session. Connection 0 is the only connection bound
  to the room and is closed (state 3), the room still has its user, and \<open>emptyAt\<close> is still
  unset (0).
\<close>

theorem close_leaves_session_unstamped:
  "run H [Message 1000000 ''s0'' fresh_id 0 (joinMsg alice), Close 1060000 0] newBroker
     = Some (state_closed H)
   \<and> handleWebSocketClose 1060000 0 (state_created H) = Threw TypeError (state_closed H)
   \<and> cleanupTick 300000 1400000 (state_closed H) = Threw TypeError (state_closed H)
   \<and> map_option emptyAt (getSession room (state_closed H)) = Some 0
   \<and> map_option (map fst \<circ> users) (getSession room (state_closed H)) = Some [alice_id]
   \<and> (\<forall>h. (wsSessionId (conns (state_closed H) h) = room) = (h = 0))
   \<and> readyState (conns (state_closed H) 0) = 3"
  apply (simp add: step_create step_close stateOf_def)
  apply (simp add: cleanupTick_def cleanupSessions_def userOnline_def getSession_def
        state_closed_def room_session_def member_def conn_def newSocket_def room_ok
        room_ok(2)[symmetric])
  done

end
